theory Spec2Isabelle
  imports Complex_Main "HOL-Library.Sublist"
begin

section \<open>Text\<close>

text \<open>
  A Python \<open>str\<close> is a sequence of Unicode code points, so text is a list of
  naturals. \<open>asc\<close> reads an ASCII literal; letters outside ASCII are written
  by code point (259 a-breve, 537 s-comma, 539 t-comma, 8222 and 8221 the
  Romanian quotation marks).
\<close>

type_synonym ustr = "nat list"

definition asc :: "string \<Rightarrow> ustr" where
  "asc s = map of_char s"

type_synonym vector = "rat list"

subsection \<open>The standard library\<close>

text \<open>
  What \<open>json.loads\<close> hands to \<open>_select_title\<close>: either a \<open>dict\<close>, on which
  \<open>.get\<close> works, or some other value, on which \<open>.get\<close> raises
  \<open>AttributeError\<close>. A value stored under a key is a \<open>str\<close> or anything
  else; for the latter only the text that \<open>str()\<close> prints is kept.
\<close>

datatype jvalue = JString ustr | JNonString ustr

datatype json = JDict "(ustr \<times> jvalue) list" | JNotDict

text \<open>
  The character tables and library routines of the Python runtime are not
  part of the repository. They are a parameter of the model:
  \<open>isspace\<close>, \<open>isalnum\<close> are \<open>str.isspace\<close>, \<open>str.isalnum\<close> on one code point;
  \<open>str_lower\<close>, \<open>casefold\<close> are \<open>str.lower\<close>, \<open>str.casefold\<close> on a whole string
  (lowering may change the length); \<open>ci_eq p c\<close> is the comparison the \<open>re\<close>
  engine makes between pattern letter \<open>p\<close> and text letter \<open>c\<close> under
  \<open>re.IGNORECASE | re.UNICODE\<close>; \<open>json_loads\<close> is \<open>json.loads\<close>, \<open>None\<close> when
  it raises \<open>JSONDecodeError\<close>; \<open>get_close_matches word possibilities n cutoff\<close>
  is \<open>difflib.get_close_matches\<close>; \<open>str_repr\<close> is \<open>repr\<close> on a string.
\<close>

record pylib =
  isspace :: "nat \<Rightarrow> bool"
  isalnum :: "nat \<Rightarrow> bool"
  str_lower :: "ustr \<Rightarrow> ustr"
  casefold :: "ustr \<Rightarrow> ustr"
  ci_eq :: "nat \<Rightarrow> nat \<Rightarrow> bool"
  json_loads :: "ustr \<Rightarrow> json option"
  get_close_matches :: "ustr \<Rightarrow> ustr list \<Rightarrow> nat \<Rightarrow> rat \<Rightarrow> ustr list"
  str_repr :: "ustr \<Rightarrow> ustr"

text \<open>\<open>s.strip()\<close>: drop the whitespace at both ends.\<close>

definition strip :: "pylib \<Rightarrow> ustr \<Rightarrow> ustr" where
  "strip L s = rev (dropWhile (isspace L) (rev (dropWhile (isspace L) s)))"

text \<open>\<open>s.strip(c)\<close> for a single character \<open>c\<close>.\<close>

definition strip_char :: "nat \<Rightarrow> ustr \<Rightarrow> ustr" where
  "strip_char c s = rev (dropWhile (\<lambda>x. x = c) (rev (dropWhile (\<lambda>x. x = c) s)))"

definition dash :: nat where
  "dash = 45"

text \<open>
  \<open>s.replace("--", "-")\<close>: occurrences are found left to right and do not
  overlap, so three dashes in a row become two.
\<close>

fun replace_dashes :: "ustr \<Rightarrow> ustr" where
  "replace_dashes (a # b # xs) =
     (if a = dash \<and> b = dash then dash # replace_dashes xs
      else a # replace_dashes (b # xs))"
| "replace_dashes xs = xs"

text \<open>\<open>sep.join(xs)\<close>.\<close>

fun join :: "ustr \<Rightarrow> ustr list \<Rightarrow> ustr" where
  "join sep [] = []"
| "join sep [x] = x"
| "join sep (x # y # ys) = x @ sep @ join sep (y # ys)"

text \<open>\<open>str(d.get(key, ""))\<close> and \<open>str(d.get(key) or "")\<close> on a text field that may be absent.\<close>

definition text_or_empty :: "ustr option \<Rightarrow> ustr" where
  "text_or_empty v = (case v of None \<Rightarrow> [] | Some t \<Rightarrow> t)"

text \<open>
  A \<open>dict\<close> keeps its keys in insertion order: \<open>d[k] = v\<close> replaces the value
  of a key that is present, where it stands, and appends a new key.
\<close>

fun dict_set :: "'k \<Rightarrow> 'v \<Rightarrow> ('k \<times> 'v) list \<Rightarrow> ('k \<times> 'v) list" where
  "dict_set k v [] = [(k, v)]"
| "dict_set k v ((k', v') # kvs) =
     (if k' = k then (k, v) # kvs else (k', v') # dict_set k v kvs)"

text \<open>\<open>needle in hay\<close> on strings.\<close>

fun contains :: "ustr \<Rightarrow> ustr \<Rightarrow> bool" where
  "contains needle [] = (needle = [])"
| "contains needle (c # cs) = (prefix needle (c # cs) \<or> contains needle cs)"

text \<open>The first answer a function gives along a list.\<close>

fun first_some :: "('a \<Rightarrow> 'b option) \<Rightarrow> 'a list \<Rightarrow> 'b option" where
  "first_some f [] = None"
| "first_some f (x # xs) = (case f x of Some y \<Rightarrow> Some y | None \<Rightarrow> first_some f xs)"

text \<open>Truth of an optional string in a condition: neither \<open>None\<close> nor empty.\<close>

definition truthy :: "ustr option \<Rightarrow> bool" where
  "truthy v = (case v of None \<Rightarrow> False | Some t \<Rightarrow> t \<noteq> [])"

section \<open>Errors\<close>

text \<open>
  Every exception of the pipeline. \<open>HTTPException\<close> carries its status
  code and its detail, and prints as \<open>400: detail\<close>. Every other exception
  carries the text \<open>str(e)\<close> prints; for a \<open>KeyError\<close> that text is the
  \<open>repr\<close> of the missing key, which is applied where it is raised.
  \<open>InvalidArgumentError\<close> and \<open>DuplicateIDError\<close> are the refusals of the
  collection; \<open>ProviderError\<close> stands for whatever a remote capability
  raises.
\<close>

datatype exn =
    HTTPException nat ustr
  | FileNotFoundError ustr
  | ValueError ustr
  | IndexError ustr
  | KeyError ustr
  | DuplicateIDError ustr
  | InvalidArgumentError ustr
  | ProviderError ustr

text \<open>A number in decimal, as \<open>str\<close> prints it.\<close>

function decimal :: "nat \<Rightarrow> ustr" where
  "decimal n = (if n < 10 then [48 + n] else decimal (n div 10) @ [48 + n mod 10])"
  by pat_completeness auto
termination
  by (relation "measure (\<lambda>n. n)") auto

declare decimal.simps [simp del]

fun str_exn :: "exn \<Rightarrow> ustr" where
  "str_exn (HTTPException code detail) = decimal code @ [58, 32] @ detail"
| "str_exn (FileNotFoundError m) = m"
| "str_exn (ValueError m) = m"
| "str_exn (IndexError m) = m"
| "str_exn (KeyError m) = m"
| "str_exn (DuplicateIDError m) = m"
| "str_exn (InvalidArgumentError m) = m"
| "str_exn (ProviderError m) = m"

section \<open>Catalog, index and environment\<close>

text \<open>
  One entry of \<open>book_summaries.json\<close>, with the documented structure: the
  title and the summary are text or absent, authors and tags are lists.
\<close>

record book =
  b_title :: "ustr option"
  b_authors :: "ustr list"
  b_tags :: "ustr list"
  b_summary :: "ustr option"

text \<open>What \<open>_load_books\<close> finds at \<open>BOOKS_JSON\<close>.\<close>

datatype books_file = Missing | Undecodable ustr | NotAList | Books "book list"

record meta =
  m_title :: "ustr option"
  m_authors :: "ustr option"
  m_tags :: "ustr option"
  m_summary :: "ustr option"

text \<open>One document of the Chroma collection \<open>books\<close>.\<close>

record doc =
  d_id :: ustr
  d_document :: ustr
  d_embedding :: vector
  d_metadata :: meta

text \<open>The answer of \<open>col.query\<close> for one query vector: four parallel lists.\<close>

record query_result =
  q_ids :: "ustr list"
  q_distances :: "rat list"
  q_documents :: "ustr list"
  q_metadatas :: "meta option list"

text \<open>One item of the list \<open>retrieve\<close> returns.\<close>

record match =
  r_title :: "ustr option"
  r_summary :: "ustr option"
  r_authors :: "ustr option"
  r_tags :: "ustr option"
  r_distance :: "rat option"
  r_document :: "ustr option"
  r_id :: ustr

text \<open>
  An event of the provider's completion stream: a text delta
  (\<open>response.output_text.delta\<close>) or an event of another type.
\<close>

datatype stream_event = Delta ustr | OtherEvent

text \<open>
  The world outside the process. Each remote capability either raises or
  answers. The two completion prompts are rendered from the values passed
  here (the request, the candidate titles; the request, the chosen title, the
  retrieved matches and the summary), so the provider is a function of those
  values. A completion stream delivers finitely many events and then either
  ends or raises. \<open>chroma_query\<close> is the nearest-neighbour search of the
  vector store over the stored documents.
\<close>

record env =
  lib :: pylib
  books_json :: books_file
  embeddings_create :: "ustr list \<Rightarrow> exn + vector list"
  responses_create :: "ustr \<Rightarrow> ustr list \<Rightarrow> exn + ustr option"
  responses_stream ::
    "ustr \<Rightarrow> ustr \<Rightarrow> match list \<Rightarrow> ustr \<Rightarrow> exn + stream_event list \<times> exn option"
  chroma_query :: "doc list \<Rightarrow> vector \<Rightarrow> int \<Rightarrow> exn + query_result"

text \<open>
  What the process did, oldest first: a component was entered, the
  embedding capability was called on some texts, documents were handed to
  the collection, documents were deleted, the collection was searched, a
  completion was requested, a completion stream was opened.
\<close>

datatype event =
    Called string
  | Embedded "ustr list"
  | Added "ustr list"
  | Deleted "ustr list"
  | Queried
  | Completed
  | Streamed

text \<open>
  The process state: the persistent collection in insertion order, the
  module-level cache of \<open>tools.py\<close> (\<open>_BOOKS_CACHE\<close> and \<open>_TITLE_INDEX\<close>, the
  latter a dict in insertion order), and the record of what was done.
\<close>

record state =
  collection :: "doc list"
  cache :: "(book list \<times> (ustr \<times> book) list) option"
  trace :: "event list"

definition logged :: "event \<Rightarrow> state \<Rightarrow> state" where
  "logged ev s = s\<lparr>trace := trace s @ [ev]\<rparr>"

section \<open>rag.py\<close>

definition load_books :: "env \<Rightarrow> exn + book list" where
  "load_books E =
     (case books_json E of
        Missing \<Rightarrow> Inl (FileNotFoundError (asc ''books file not found''))
      | Undecodable m \<Rightarrow> Inl (ValueError m)
      | NotAList \<Rightarrow> Inl (ValueError (asc ''book_summaries.json must contain a list of books''))
      | Books bs \<Rightarrow> Inr bs)"

definition slugify :: "pylib \<Rightarrow> ustr \<Rightarrow> ustr" where
  "slugify L title =
     replace_dashes
       (strip_char dash
          (map (\<lambda>ch. if isalnum L ch then ch else dash) (str_lower L title)))"

definition compose_document :: "pylib \<Rightarrow> book \<Rightarrow> ustr" where
  "compose_document L b =
     (let title = strip L (text_or_empty (b_title b));
          authors = join (asc '', '') (b_authors b);
          tags = join (asc '', '') (b_tags b);
          summary = strip L (text_or_empty (b_summary b));
          parts = [asc ''Title: '' @ title,
                   if authors \<noteq> [] then asc ''Authors: '' @ authors else [],
                   if tags \<noteq> [] then asc ''Tags: '' @ tags else [],
                   asc ''Summary: '' @ summary]
      in join [10] (filter (\<lambda>p. p \<noteq> []) parts))"

definition embed_texts :: "env \<Rightarrow> ustr list \<Rightarrow> state \<Rightarrow> (exn + vector list) \<times> state" where
  "embed_texts E texts s =
     (if texts = [] then (Inr [], s)
      else (embeddings_create E texts, logged (Embedded texts) s))"

text \<open>
  The collection's own operations, after the client library's contract:
  \<open>count\<close>; \<open>delete(ids)\<close>; \<open>add\<close>, which refuses lists of different lengths,
  an empty id and an id repeated within the call, and leaves a document
  whose id is already stored as it is.
\<close>

definition col_count :: "state \<Rightarrow> nat" where
  "col_count s = length (collection s)"

definition col_delete :: "ustr list \<Rightarrow> state \<Rightarrow> state" where
  "col_delete ids s =
     logged (Deleted ids) (s\<lparr>collection := filter (\<lambda>d. d_id d \<notin> set ids) (collection s)\<rparr>)"

definition new_docs :: "ustr list \<Rightarrow> ustr list \<Rightarrow> vector list \<Rightarrow> meta list \<Rightarrow> doc list" where
  "new_docs ids docs vectors metas =
     map (\<lambda>(i, d, v, m). \<lparr>d_id = i, d_document = d, d_embedding = v, d_metadata = m\<rparr>)
       (zip ids (zip docs (zip vectors metas)))"

definition col_add ::
  "ustr list \<Rightarrow> ustr list \<Rightarrow> vector list \<Rightarrow> meta list \<Rightarrow> state \<Rightarrow> (exn + unit) \<times> state" where
  "col_add ids docs vectors metas s =
     (if length docs \<noteq> length ids \<or> length vectors \<noteq> length ids \<or> length metas \<noteq> length ids
      then (Inl (ValueError (asc ''Unequal lengths'')), s)
      else if [] \<in> set ids
      then (Inl (InvalidArgumentError (asc ''Expected IDs to be non-empty strings'')), s)
      else if \<not> distinct ids
      then (Inl (DuplicateIDError (asc ''Expected IDs to be unique'')), s)
      else (Inr (),
            logged (Added ids)
              (s\<lparr>collection := collection s @
                   filter (\<lambda>d. d_id d \<notin> d_id ` set (collection s))
                     (new_docs ids docs vectors metas)\<rparr>)))"

definition BATCH :: nat where
  "BATCH = 64"

text \<open>
  The first loop of \<open>index_books\<close>: the ids, texts and metadata of the
  entries whose title is not blank.
\<close>

fun index_rows :: "pylib \<Rightarrow> book list \<Rightarrow> ustr list \<times> ustr list \<times> meta list" where
  "index_rows L [] = ([], [], [])"
| "index_rows L (b # bs) =
     (let title = strip L (text_or_empty (b_title b));
          (ids, docs, metas) = index_rows L bs
      in if title = [] then (ids, docs, metas)
         else (slugify L title # ids,
               compose_document L b # docs,
               \<lparr>m_title = Some title,
                m_authors = Some (join (asc '', '') (b_authors b)),
                m_tags = Some (join (asc '', '') (b_tags b)),
                m_summary = Some (text_or_empty (b_summary b))\<rparr> # metas))"

text \<open>The second loop: \<open>for i in range(0, len(docs), BATCH)\<close>.\<close>

function index_batches ::
  "env \<Rightarrow> ustr list \<Rightarrow> ustr list \<Rightarrow> meta list \<Rightarrow> nat \<Rightarrow> nat \<Rightarrow> state \<Rightarrow> (exn + nat) \<times> state" where
  "index_batches E ids docs metas i added s =
     (if i < length docs then
        (let batch_ids = take BATCH (drop i ids);
             batch_docs = take BATCH (drop i docs);
             batch_meta = take BATCH (drop i metas)
         in case embed_texts E batch_docs s of
              (Inl e, s1) \<Rightarrow> (Inl e, s1)
            | (Inr vectors, s1) \<Rightarrow>
                (case col_add batch_ids batch_docs vectors batch_meta s1 of
                   (Inl e, s2) \<Rightarrow> (Inl e, s2)
                 | (Inr u, s2) \<Rightarrow>
                     index_batches E ids docs metas (i + BATCH) (added + length batch_ids) s2))
      else (Inr added, s))"
  by pat_completeness auto
termination
  by (relation "measure (\<lambda>(E, ids, docs, metas, i, added, s). length docs - i)")
     (auto simp: BATCH_def)

declare index_batches.simps [simp del]

definition index_books :: "bool \<Rightarrow> env \<Rightarrow> state \<Rightarrow> (exn + int \<times> int) \<times> state" where
  "index_books force E s =
     (case load_books E of
        Inl e \<Rightarrow> (Inl e, s)
      | Inr books \<Rightarrow>
          (let existing_count = col_count s in
           if existing_count \<noteq> 0 \<and> \<not> force then (Inr (0, int existing_count), s)
           else
             (let s1 = (if force \<and> existing_count \<noteq> 0
                        then col_delete (map d_id (collection s)) s else s);
                  (ids, docs, metas) = index_rows (lib E) books
              in case index_batches E ids docs metas 0 0 s1 of
                   (Inl e, s2) \<Rightarrow> (Inl e, s2)
                 | (Inr added, s2) \<Rightarrow> (Inr (int added, int (length docs) - int added), s2))))"

text \<open>The items \<open>retrieve\<close> builds from the answer of the collection.\<close>

definition match_at :: "query_result \<Rightarrow> nat \<Rightarrow> match" where
  "match_at res i =
     (let m = (if i < length (q_metadatas res) then q_metadatas res ! i else None)
      in \<lparr>r_title = (case m of None \<Rightarrow> None | Some x \<Rightarrow> m_title x),
          r_summary = (case m of None \<Rightarrow> None | Some x \<Rightarrow> m_summary x),
          r_authors = (case m of None \<Rightarrow> None | Some x \<Rightarrow> m_authors x),
          r_tags = (case m of None \<Rightarrow> None | Some x \<Rightarrow> m_tags x),
          r_distance = (if i < length (q_distances res) then Some (q_distances res ! i) else None),
          r_document = (if i < length (q_documents res) then Some (q_documents res ! i) else None),
          r_id = q_ids res ! i\<rparr>)"

definition retrieve :: "env \<Rightarrow> ustr option \<Rightarrow> int \<Rightarrow> state \<Rightarrow> (exn + match list) \<times> state" where
  "retrieve E query k s0 =
     (let s = logged (Called ''retrieve'') s0;
          q = strip (lib E) (text_or_empty query)
      in if q = [] then (Inr [], s)
         else
           (case embed_texts E [q] s of
              (Inl e, s1) \<Rightarrow> (Inl e, s1)
            | (Inr vectors, s1) \<Rightarrow>
                (case vectors of
                   [] \<Rightarrow> (Inl (IndexError (asc ''list index out of range'')), s1)
                 | q_emb # rest \<Rightarrow>
                     (case chroma_query E (collection s1) q_emb (max 1 k) of
                        Inl e \<Rightarrow> (Inl e, logged Queried s1)
                      | Inr res \<Rightarrow>
                          (Inr (map (match_at res) [0..<length (q_ids res)]),
                           logged Queried s1)))))"

text \<open>\<open>init_store\<close>: make sure the collection exists, then index.\<close>

definition init_store :: "bool \<Rightarrow> env \<Rightarrow> state \<Rightarrow> (exn + int \<times> int) \<times> state" where
  "init_store force E s = index_books force E s"

section \<open>moderation.py\<close>

text \<open>
  Every pattern of \<open>OFFENSIVE_PATTERNS\<close> has the shape \<open>\bSTEM\w*\b\<close>; the
  list holds the stems, in the order of the source.
\<close>

definition OFFENSIVE_PATTERNS :: "ustr list" where
  "OFFENSIVE_PATTERNS =
   [asc ''idiot'',
    asc ''prost'',
    asc ''nesim'' @ [539] @ asc ''it'',
    asc ''jeg'',
    asc ''jigod'',
    asc ''jig'' @ [259] @ asc ''od'',
    asc ''bozgor'',
    asc ''doamne-fer'',
    asc ''dracu'',
    asc ''naib'',
    asc ''pul'',
    asc ''cur'',
    asc ''muist'',
    [539] @ asc ''igan'',
    asc ''handicapat'',
    asc ''bou'',
    asc ''boulean'',
    asc ''porc'',
    asc ''vac'' @ [259],
    asc ''gunoa'',
    asc ''m'' @ [259] @ asc ''gar'',
    asc ''zdren'' @ [539, 259] @ asc ''ros'',
    asc ''javr'',
    asc ''moron'',
    asc ''jerk'',
    asc ''jackass'',
    asc ''asshole'',
    asc ''shit'',
    asc ''fuck'',
    asc ''cunt'',
    asc ''retard'',
    asc ''bitch'',
    asc ''whore'',
    asc ''slut'',
    asc ''bastard'']"

text \<open>\<open>\w\<close>: an alphanumeric character or the underscore.\<close>

definition word_char :: "pylib \<Rightarrow> nat \<Rightarrow> bool" where
  "word_char L c = (isalnum L c \<or> c = 95)"

text \<open>\<open>\b\<close> at position \<open>i\<close>: a word character on exactly one side.\<close>

definition at_boundary :: "pylib \<Rightarrow> ustr \<Rightarrow> nat \<Rightarrow> bool" where
  "at_boundary L text i =
     ((0 < i \<and> i \<le> length text \<and> word_char L (text ! (i - 1)))
        \<noteq> (i < length text \<and> word_char L (text ! i)))"

text \<open>The stem read at position \<open>i\<close>, letter by letter, ignoring case.\<close>

definition stem_at :: "pylib \<Rightarrow> ustr \<Rightarrow> ustr \<Rightarrow> nat \<Rightarrow> bool" where
  "stem_at L stem text i =
     (i + length stem \<le> length text
        \<and> list_all2 (ci_eq L) stem (take (length stem) (drop i text)))"

text \<open>
  One pattern tried at position \<open>i\<close>; the answer is the end of the match.
  \<open>\w*\<close> is greedy: it takes the whole run of word characters and gives
  characters back until \<open>\b\<close> holds.
\<close>

definition match_pattern :: "pylib \<Rightarrow> ustr \<Rightarrow> nat \<Rightarrow> ustr \<Rightarrow> nat option" where
  "match_pattern L text i stem =
     (if at_boundary L text i \<and> stem_at L stem text i then
        (let e = i + length stem;
             run = length (takeWhile (word_char L) (drop e text))
         in first_some (\<lambda>j. if at_boundary L text (e + j) then Some (e + j) else None)
              (rev [0..<Suc run]))
      else None)"

text \<open>
  \<open>_COMPILED.search(text)\<close>: the leftmost position where some alternative
  matches, and there the first alternative that does.
\<close>

definition search :: "pylib \<Rightarrow> ustr \<Rightarrow> (nat \<times> nat) option" where
  "search L text =
     first_some
       (\<lambda>i. map_option (\<lambda>e. (i, e)) (first_some (match_pattern L text i) OFFENSIVE_PATTERNS))
       [0..<Suc (length text)]"

definition is_offensive :: "pylib \<Rightarrow> ustr \<Rightarrow> ustr option" where
  "is_offensive L text =
     (if text = [] then None
      else (case search L text of
              None \<Rightarrow> None
            | Some (i, e) \<Rightarrow> Some (take (e - i) (drop i text))))"

section \<open>tools.py\<close>

definition norm :: "pylib \<Rightarrow> ustr \<Rightarrow> ustr" where
  "norm L s = casefold L (strip L s)"

text \<open>The loop of \<open>_ensure_cache\<close> that fills \<open>_TITLE_INDEX\<close>.\<close>

fun title_index :: "pylib \<Rightarrow> book list \<Rightarrow> (ustr \<times> book) list \<Rightarrow> (ustr \<times> book) list" where
  "title_index L [] idx = idx"
| "title_index L (b # bs) idx =
     (let title = strip L (text_or_empty (b_title b))
      in title_index L bs (if title \<noteq> [] then dict_set (norm L title) b idx else idx))"

definition ensure_cache ::
  "env \<Rightarrow> state \<Rightarrow> (exn + book list \<times> (ustr \<times> book) list) \<times> state" where
  "ensure_cache E s =
     (case cache s of
        Some c \<Rightarrow> (Inr c, s)
      | None \<Rightarrow>
          (case load_books E of
             Inl e \<Rightarrow> (Inl e, s)
           | Inr books \<Rightarrow>
               (let c = (books, title_index (lib E) books [])
                in (Inr c, s\<lparr>cache := Some c\<rparr>))))"

definition MSG_NO_TITLE :: ustr where
  "MSG_NO_TITLE = asc ''Nu am primit niciun titlu. Te rog trimite un titlu de carte valid.''"

text \<open>The three endings of \<open>get_summary_by_title\<close>: the stored summary, or a sentence when it is blank.\<close>

definition summary_exact :: "pylib \<Rightarrow> book \<Rightarrow> ustr" where
  "summary_exact L b =
     (let summary = strip L (text_or_empty (b_summary b))
      in if summary \<noteq> [] then summary
         else asc ''Cartea '' @ [8222]
              @ (case b_title b of
                   None \<Rightarrow> asc ''(f'' @ [259] @ asc ''r'' @ [259] @ asc '' titlu)''
                 | Some t \<Rightarrow> t)
              @ [8221] @ asc '' nu are un rezumat disponibil.'')"

definition summary_close :: "pylib \<Rightarrow> ustr \<Rightarrow> book \<Rightarrow> ustr" where
  "summary_close L close_title b =
     (let summary = strip L (text_or_empty (b_summary b))
      in if summary \<noteq> [] then summary
         else asc ''Am g'' @ [259] @ asc ''sit cartea cea mai apropiat'' @ [259] @ asc '' '' @ [8222]
              @ close_title @ [8221] @ asc '', dar nu are rezumat.'')"

definition summary_best :: "pylib \<Rightarrow> book \<Rightarrow> ustr" where
  "summary_best L b =
     (let summary = strip L (text_or_empty (b_summary b))
      in if summary \<noteq> [] then summary
         else asc ''Cartea '' @ [8222]
              @ (case b_title b of None \<Rightarrow> asc ''(necunoscut)'' | Some t \<Rightarrow> t)
              @ [8221] @ asc '' nu are rezumat disponibil.'')"

definition not_found :: "ustr \<Rightarrow> ustr" where
  "not_found title =
     asc ''Nu am g'' @ [259] @ asc ''sit nicio carte cu titlul '' @ [8222] @ title @ [8221] @ asc ''.''"

text \<open>
  The list comprehension over \<open>_TITLE_INDEX.items()\<close>: the books whose
  normalized title contains the key or starts with it, in the order of the
  index.
\<close>

definition candidates_for :: "ustr \<Rightarrow> (ustr \<times> book) list \<Rightarrow> book list" where
  "candidates_for key idx =
     map snd (filter (\<lambda>(tkey, b). contains key tkey \<or> prefix key tkey) idx)"

text \<open>
  \<open>get_close_matches(title, all_titles, n=1, cutoff=0.6)\<close> is asked with the
  title as it came in, against the titles as they stand in the catalog; the
  cutoff is written as the fraction 6/10.
\<close>

definition get_summary_by_title :: "env \<Rightarrow> ustr \<Rightarrow> state \<Rightarrow> (exn + ustr) \<times> state" where
  "get_summary_by_title E title s0 =
     (let L = lib E; s = logged (Called ''get_summary_by_title'') s0
      in case ensure_cache E s of
           (Inl e, s1) \<Rightarrow> (Inl e, s1)
         | (Inr (books_cache, idx), s1) \<Rightarrow>
             if title = [] \<or> strip L title = [] then (Inr MSG_NO_TITLE, s1)
             else
               (let key = norm L title
                in case map_of idx key of
                     Some b \<Rightarrow> (Inr (summary_exact L b), s1)
                   | None \<Rightarrow>
                       (let candidates = candidates_for key idx
                        in if candidates = [] then
                             (let all_titles = map (\<lambda>b. text_or_empty (b_title b)) books_cache;
                                  close = get_close_matches L title all_titles 1 (6 / 10)
                              in case close of
                                   close_title # rest \<Rightarrow>
                                     (case map_of idx (norm L close_title) of
                                        None \<Rightarrow> (Inl (KeyError (str_repr L (norm L close_title))), s1)
                                      | Some b \<Rightarrow> (Inr (summary_close L close_title b), s1))
                                 | [] \<Rightarrow> (Inr (not_found title), s1))
                           else (Inr (summary_best L (hd candidates)), s1))))"

text \<open>
  The notions in which the resolution order is stated. An entry has a title
  when its title is not blank; its normalized title is that title trimmed
  and case-folded. The normalized titles of the catalog are those of its
  entries with a title, in catalog order. \<open>title_matches\<close> is the test of the
  substring and prefix heuristic, and a candidate is an entry with a title
  whose normalized title passes it. \<open>entries_titled\<close> are the entries that
  carry a given normalized title, in catalog order.
\<close>

definition has_title :: "pylib \<Rightarrow> book \<Rightarrow> bool" where
  "has_title L b = (strip L (text_or_empty (b_title b)) \<noteq> [])"

definition normalized_title :: "pylib \<Rightarrow> book \<Rightarrow> ustr" where
  "normalized_title L b = norm L (strip L (text_or_empty (b_title b)))"

definition normalized_titles :: "pylib \<Rightarrow> book list \<Rightarrow> ustr list" where
  "normalized_titles L books =
     map (\<lambda>b. norm L (strip L (text_or_empty (b_title b))))
       (filter (\<lambda>b. strip L (text_or_empty (b_title b)) \<noteq> []) books)"

definition title_matches :: "ustr \<Rightarrow> ustr \<Rightarrow> bool" where
  "title_matches key tkey = (contains key tkey \<or> prefix key tkey)"

definition is_candidate :: "pylib \<Rightarrow> ustr \<Rightarrow> book \<Rightarrow> bool" where
  "is_candidate L key b = (has_title L b \<and> title_matches key (normalized_title L b))"

definition entries_titled :: "pylib \<Rightarrow> ustr \<Rightarrow> book list \<Rightarrow> book list" where
  "entries_titled L k books =
     filter (\<lambda>b. has_title L b \<and> normalized_title L b = k) books"

section \<open>main.py\<close>

text \<open>
  \<open>FinalResponse\<close>, and the three frames \<open>_sse\<close> is asked to build: a token
  frame with a piece of text, a final frame with the dumped \<open>FinalResponse\<close>,
  an error frame with the message under the key \<open>error\<close>.
\<close>

record FinalResponse =
  final :: bool
  recommendation :: "(string \<times> ustr) list option"
  summary :: "ustr option"

datatype frame = Token ustr | Final FinalResponse | Error ustr

fun is_token :: "frame \<Rightarrow> bool" where
  "is_token (Token d) = True"
| "is_token f = False"

fun is_terminal :: "frame \<Rightarrow> bool" where
  "is_terminal (Token d) = False"
| "is_terminal f = True"

text \<open>
  A generator, run to its end: the frames it yielded and the exception that
  ended it, if one did.
\<close>

type_synonym generator = "frame list \<times> exn option"

text \<open>The first two statements of \<open>_select_title\<close>.\<close>

definition candidate_titles :: "pylib \<Rightarrow> match list \<Rightarrow> ustr list" where
  "candidate_titles L context_items =
     filter (\<lambda>t. t \<noteq> [])
       (map (\<lambda>x. strip L (text_or_empty (r_title x)))
          (filter (\<lambda>x. truthy (r_title x)) context_items))"

text \<open>\<open>titles[0] if titles else ""\<close>.\<close>

definition first_title :: "ustr list \<Rightarrow> ustr" where
  "first_title titles = (case titles of [] \<Rightarrow> [] | t # rest \<Rightarrow> t)"

text \<open>\<open>str(data.get("title", ""))\<close> on a decoded object.\<close>

definition get_title :: "(ustr \<times> jvalue) list \<Rightarrow> ustr" where
  "get_title kvs =
     (case map_of kvs (asc ''title'') of
        None \<Rightarrow> []
      | Some (JString t) \<Rightarrow> t
      | Some (JNonString t) \<Rightarrow> t)"

definition select_title :: "env \<Rightarrow> ustr \<Rightarrow> match list \<Rightarrow> state \<Rightarrow> (exn + ustr) \<times> state" where
  "select_title E message context_items s0 =
     (let L = lib E; s = logged (Called ''_select_title'') s0;
          titles = candidate_titles L context_items
      in if titles = [] then (Inr [], s)
         else
           (case responses_create E message titles of
              Inl e \<Rightarrow> (Inl e, logged Completed s)
            | Inr output_text \<Rightarrow>
                (let text = strip L (text_or_empty output_text)
                 in (case json_loads L text of
                       None \<Rightarrow> Inr (first_title titles)
                     | Some JNotDict \<Rightarrow> Inr (first_title titles)
                     | Some (JDict kvs) \<Rightarrow>
                         (let chosen = strip L (get_title kvs)
                          in Inr (if chosen \<in> set titles then chosen else first_title titles)),
                     logged Completed s))))"

definition POLICY_MESSAGE :: ustr where
  "POLICY_MESSAGE =
     asc ''A'' @ [537] @ asc '' vrea s'' @ [259] @ asc '' p'' @ [259] @ asc ''str'' @ [259]
     @ asc ''m conversa'' @ [539] @ asc ''ia politic'' @ [259] @ asc '' '' @ [537]
     @ asc ''i respectuoas'' @ [259] @ asc ''. Po'' @ [539]
     @ asc ''i reformula mesajul f'' @ [259] @ asc ''r'' @ [259] @ asc '' termeni ofensatori?''"

definition stream_policy_reply :: generator where
  "stream_policy_reply =
     ([Token POLICY_MESSAGE,
       Final \<lparr>final = True, recommendation = None, summary = None\<rparr>], None)"

text \<open>The text deltas of a completion stream, each as a token frame.\<close>

fun token_frames :: "stream_event list \<Rightarrow> frame list" where
  "token_frames [] = []"
| "token_frames (Delta d # evs) = Token d # token_frames evs"
| "token_frames (OtherEvent # evs) = token_frames evs"

definition stream_final_with_summary ::
  "env \<Rightarrow> ustr \<Rightarrow> match list \<Rightarrow> ustr \<Rightarrow> state \<Rightarrow> generator \<times> state" where
  "stream_final_with_summary E message context_items title s =
     (case (if title \<noteq> [] then get_summary_by_title E title s else (Inr [], s)) of
        (Inl e, s1) \<Rightarrow> (([], Some e), s1)
      | (Inr summ, s1) \<Rightarrow>
          (case responses_stream E message title context_items summ of
             Inl e \<Rightarrow> (([], Some e), logged Streamed s1)
           | Inr (events, failure) \<Rightarrow>
               (case failure of
                  Some e \<Rightarrow> ((token_frames events, Some e), logged Streamed s1)
                | None \<Rightarrow>
                    ((token_frames events
                        @ [Final \<lparr>final = True,
                                  recommendation = Some [(''title'', title)],
                                  summary = (if summ = [] then None else Some summ)\<rparr>],
                      None),
                     logged Streamed s1))))"

text \<open>
  \<open>event_generator\<close> and \<open>event_generator_policy\<close>: the frames of the inner
  generator, and one error frame if an exception ended it.
\<close>

definition event_generator :: "generator \<Rightarrow> frame list" where
  "event_generator g =
     (case g of
        (frames, None) \<Rightarrow> frames
      | (frames, Some e) \<Rightarrow> frames @ [Error (str_exn e)])"

text \<open>
  \<open>respond\<close>, with the stream read to its end: the frames of the
  \<open>StreamingResponse\<close>, or the exception raised before there is one.
\<close>

definition respond :: "env \<Rightarrow> ustr \<Rightarrow> state \<Rightarrow> (exn + frame list) \<times> state" where
  "respond E payload_message s =
     (let message = strip (lib E) payload_message
      in if message = []
         then (Inl (HTTPException 400
                      (asc ''Field '' @ [39] @ asc ''message'' @ [39] @ asc '' is required'')), s)
         else
           (let bad = is_offensive (lib E) message
            in if truthy bad then (Inr (event_generator stream_policy_reply), s)
               else
                 (case retrieve E (Some message) 3 s of
                    (Inl e, s1) \<Rightarrow> (Inl e, s1)
                  | (Inr context_items, s1) \<Rightarrow>
                      (case select_title E message context_items s1 of
                         (Inl e, s2) \<Rightarrow> (Inl e, s2)
                       | (Inr title, s2) \<Rightarrow>
                           (case stream_final_with_summary E message context_items title s2 of
                              (g, s3) \<Rightarrow> (Inr (event_generator g), s3))))))"

section \<open>A runtime for ASCII text\<close>

text \<open>
  To run the model on examples the library parameter is filled in for ASCII
  text: the character tables of Python restricted to code points below 128,
  a decoder for JSON objects whose members are plain strings without escapes
  (any other text is reported as undecodable), the similarity search of
  \<open>difflib\<close> without its heuristic for words of 200 characters or more,
  and \<open>repr\<close> on ASCII strings.
\<close>

definition ascii_isspace :: "nat \<Rightarrow> bool" where
  "ascii_isspace c = (c = 32 \<or> (9 \<le> c \<and> c \<le> 13) \<or> (28 \<le> c \<and> c \<le> 31))"

definition ascii_isalnum :: "nat \<Rightarrow> bool" where
  "ascii_isalnum c = ((48 \<le> c \<and> c \<le> 57) \<or> (65 \<le> c \<and> c \<le> 90) \<or> (97 \<le> c \<and> c \<le> 122))"

definition ascii_lower :: "nat \<Rightarrow> nat" where
  "ascii_lower c = (if 65 \<le> c \<and> c \<le> 90 then c + 32 else c)"

definition json_ws :: "ustr \<Rightarrow> ustr" where
  "json_ws s = dropWhile (\<lambda>c. c = 32 \<or> c = 9 \<or> c = 10 \<or> c = 13) s"

text \<open>A string literal at the head of the text: its content and the rest.\<close>

definition scan_string :: "ustr \<Rightarrow> (ustr \<times> ustr) option" where
  "scan_string s =
     (case s of
        [] \<Rightarrow> None
      | c # r \<Rightarrow>
          if c \<noteq> 34 then None
          else (let body = takeWhile (\<lambda>x. x \<noteq> 34) r; rest = dropWhile (\<lambda>x. x \<noteq> 34) r
                in if rest = [] \<or> 92 \<in> set body \<or> (\<exists>x \<in> set body. x < 32) then None
                   else Some (body, tl rest)))"

text \<open>The members after the opening brace; the first argument bounds the number of members.\<close>

fun scan_members :: "nat \<Rightarrow> ustr \<Rightarrow> (ustr \<times> jvalue) list \<Rightarrow> json option" where
  "scan_members 0 s acc = None"
| "scan_members (Suc n) s acc =
     (case scan_string (json_ws s) of
        None \<Rightarrow> None
      | Some (k, r1) \<Rightarrow>
          (case json_ws r1 of
             [] \<Rightarrow> None
           | c # r2 \<Rightarrow>
               if c \<noteq> 58 then None
               else (case scan_string (json_ws r2) of
                       None \<Rightarrow> None
                     | Some (v, r3) \<Rightarrow>
                         (case json_ws r3 of
                            [] \<Rightarrow> None
                          | d # r4 \<Rightarrow>
                              if d = 44 then scan_members n r4 (dict_set k (JString v) acc)
                              else if d = 125 \<and> json_ws r4 = []
                              then Some (JDict (dict_set k (JString v) acc))
                              else None))))"

definition flat_json_loads :: "ustr \<Rightarrow> json option" where
  "flat_json_loads s =
     (case json_ws s of
        [] \<Rightarrow> None
      | c # r \<Rightarrow>
          if c \<noteq> 123 then None
          else (case json_ws r of
                  [] \<Rightarrow> None
                | d # r' \<Rightarrow>
                    if d = 125 \<and> json_ws r' = [] then Some (JDict [])
                    else scan_members (length r) r []))"

text \<open>
  \<open>difflib\<close>: the longest block two sequences share, the earliest in the
  first sequence and then in the second; the matched length \<open>M\<close> found by
  splitting around that block; the ratio \<open>2M / T\<close>.
\<close>

fun common_prefix_len :: "ustr \<Rightarrow> ustr \<Rightarrow> nat" where
  "common_prefix_len (x # xs) (y # ys) = (if x = y then Suc (common_prefix_len xs ys) else 0)"
| "common_prefix_len xs ys = 0"

definition find_longest_match :: "ustr \<Rightarrow> ustr \<Rightarrow> nat \<times> nat \<times> nat" where
  "find_longest_match a b =
     foldl (\<lambda>(bi, bj, bk) (i, j).
              let k = common_prefix_len (drop i a) (drop j b)
              in if bk < k then (i, j, k) else (bi, bj, bk))
       (0, 0, 0)
       (concat (map (\<lambda>i. map (\<lambda>j. (i, j)) [0..<length b]) [0..<length a]))"

fun matched_len :: "nat \<Rightarrow> ustr \<Rightarrow> ustr \<Rightarrow> nat" where
  "matched_len 0 a b = 0"
| "matched_len (Suc fuel) a b =
     (case find_longest_match a b of
        (i, j, k) \<Rightarrow>
          if k = 0 then 0
          else k + matched_len fuel (take i a) (take j b)
                 + matched_len fuel (drop (i + k) a) (drop (j + k) b))"

definition ratio :: "ustr \<Rightarrow> ustr \<Rightarrow> rat" where
  "ratio a b =
     (let T = length a + length b
      in if T = 0 then 1 else of_nat (2 * matched_len T a b) / of_nat T)"

text \<open>Python's order on strings, code point by code point.\<close>

fun str_less :: "ustr \<Rightarrow> ustr \<Rightarrow> bool" where
  "str_less [] [] = False"
| "str_less [] (y # ys) = True"
| "str_less (x # xs) [] = False"
| "str_less (x # xs) (y # ys) = (x < y \<or> (x = y \<and> str_less xs ys))"

fun insert_desc :: "rat \<times> ustr \<Rightarrow> (rat \<times> ustr) list \<Rightarrow> (rat \<times> ustr) list" where
  "insert_desc p [] = [p]"
| "insert_desc p (q # qs) =
     (if fst q < fst p \<or> (fst q = fst p \<and> str_less (snd q) (snd p))
      then p # q # qs else q # insert_desc p qs)"

definition difflib_close_matches :: "ustr \<Rightarrow> ustr list \<Rightarrow> nat \<Rightarrow> rat \<Rightarrow> ustr list" where
  "difflib_close_matches word possibilities n cutoff =
     map snd
       (take n
          (foldl (\<lambda>acc x. insert_desc (ratio x word, x) acc) []
             (filter (\<lambda>x. cutoff \<le> ratio x word) possibilities)))"

text \<open>
  \<open>repr\<close> of an ASCII string: single quotes, unless the string holds a
  single quote and no double quote; the backslash, the chosen quote, tab,
  newline and carriage return are escaped, and the other control characters
  are written \<open>\xNN\<close>.
\<close>

definition hex_digit :: "nat \<Rightarrow> nat" where
  "hex_digit d = (if d < 10 then 48 + d else 87 + d)"

definition repr_char :: "nat \<Rightarrow> nat \<Rightarrow> ustr" where
  "repr_char quote c =
     (if c = 92 then [92, 92]
      else if c = quote then [92, quote]
      else if c = 9 then [92, 116]
      else if c = 10 then [92, 110]
      else if c = 13 then [92, 114]
      else if c < 32 \<or> c = 127 then [92, 120, hex_digit (c div 16), hex_digit (c mod 16)]
      else [c])"

definition ascii_repr :: "ustr \<Rightarrow> ustr" where
  "ascii_repr s =
     (let quote = (if 39 \<in> set s \<and> 34 \<notin> set s then 34 else 39)
      in [quote] @ concat (map (repr_char quote) s) @ [quote])"

definition ascii_py :: pylib where
  "ascii_py =
     \<lparr>isspace = ascii_isspace,
      isalnum = ascii_isalnum,
      str_lower = map ascii_lower,
      casefold = map ascii_lower,
      ci_eq = (\<lambda>p c. ascii_lower p = ascii_lower c),
      json_loads = flat_json_loads,
      get_close_matches = difflib_close_matches,
      str_repr = ascii_repr\<rparr>"

section \<open>An example world\<close>

definition dune :: book where
  "dune = \<lparr>b_title = Some (asc ''Dune''), b_authors = [asc ''Frank Herbert''],
            b_tags = [asc ''science fiction''], b_summary = Some (asc ''A desert planet.'')\<rparr>"

definition dune_messiah :: book where
  "dune_messiah = \<lparr>b_title = Some (asc ''Dune Messiah''), b_authors = [asc ''Frank Herbert''],
                    b_tags = [asc ''science fiction''], b_summary = Some (asc ''Twelve years later.'')\<rparr>"

definition hobbit :: book where
  "hobbit = \<lparr>b_title = Some (asc ''The Hobbit''), b_authors = [asc ''J.R.R. Tolkien''],
              b_tags = [asc ''fantasy''], b_summary = Some (asc ''Bilbo leaves home.'')\<rparr>"

text \<open>
  The store answers a search with the first \<open>k\<close> documents it holds, at
  distances 0, 1, 2, ...; the embedding of a text is its length; the
  selection call answers \<open>nope\<close>; the completion stream delivers two deltas
  around an event of another type and ends.
\<close>

definition first_k :: "doc list \<Rightarrow> vector \<Rightarrow> int \<Rightarrow> exn + query_result" where
  "first_k docs v k =
     (let hits = take (nat k) docs
      in Inr \<lparr>q_ids = map d_id hits,
              q_distances = map of_nat [0..<length hits],
              q_documents = map d_document hits,
              q_metadatas = map (\<lambda>d. Some (d_metadata d)) hits\<rparr>)"

definition demo_env :: env where
  "demo_env =
     \<lparr>lib = ascii_py,
      books_json = Books [dune_messiah, dune, hobbit],
      embeddings_create = (\<lambda>texts. Inr (map (\<lambda>t. [of_nat (length t)]) texts)),
      responses_create = (\<lambda>message titles. Inr (Some (asc ''nope''))),
      responses_stream =
        (\<lambda>message title items summary.
           Inr ([Delta (asc ''Try ''), OtherEvent, Delta title], None)),
      chroma_query = first_k\<rparr>"

definition start :: state where
  "start = \<lparr>collection = [], cache = None, trace = []\<rparr>"

text \<open>A retrieved match that carries a title and nothing else.\<close>

definition titled :: "ustr \<Rightarrow> match" where
  "titled t = \<lparr>r_title = Some t, r_summary = None, r_authors = None, r_tags = None,
               r_distance = None, r_document = None, r_id = t\<rparr>"

text \<open>
  A state whose collection holds one document, and three worlds in which
  something is out of order: the embedding capability, the completion
  capability, the catalog file.
\<close>

definition stocked :: state where
  "stocked =
     \<lparr>collection =
        [\<lparr>d_id = asc ''dune'', d_document = asc ''Title: Dune'', d_embedding = [1],
          d_metadata = \<lparr>m_title = Some (asc ''Dune''), m_authors = Some [], m_tags = Some [],
                        m_summary = Some (asc ''A desert planet.'')\<rparr>\<rparr>],
      cache = None, trace = []\<rparr>"

definition embedding_down :: env where
  "embedding_down =
     demo_env\<lparr>embeddings_create := (\<lambda>texts. Inl (ProviderError (asc ''embedding service unavailable'')))\<rparr>"

definition selection_down :: env where
  "selection_down =
     demo_env\<lparr>responses_create := (\<lambda>message titles. Inl (ProviderError (asc ''completion service unavailable'')))\<rparr>"

definition catalog_missing :: env where
  "catalog_missing = demo_env\<lparr>books_json := Missing\<rparr>"


text \<open>
  A catalog in which two entries carry the same title up to letter case,
  with different summaries.
\<close>

definition messiah_first :: book where
  "messiah_first = \<lparr>b_title = Some (asc ''Dune Messiah''), b_authors = [], b_tags = [],
                     b_summary = Some (asc ''first'')\<rparr>"

definition messiah_second :: book where
  "messiah_second = \<lparr>b_title = Some (asc ''DUNE MESSIAH''), b_authors = [], b_tags = [],
                      b_summary = Some (asc ''second'')\<rparr>"

definition twice_listed :: env where
  "twice_listed = demo_env\<lparr>books_json := Books [messiah_first, hobbit, messiah_second]\<rparr>"

section \<open>Properties\<close>

lemma dropWhile_all: "(\<forall>x \<in> set (dropWhile P xs). P x) \<longleftrightarrow> (\<forall>x \<in> set xs. P x)"
  by (induction xs) auto

lemma strip_blank: "strip L s = [] \<longleftrightarrow> (\<forall>c \<in> set s. isspace L c)"
  by (simp add: strip_def dropWhile_all)

text \<open>
  C8. A query that is \<open>None\<close>, empty or made of whitespace only makes
  \<open>retrieve\<close> return the empty list: it does not raise, and the only thing
  recorded is that \<open>retrieve\<close> was entered, so the embedding capability was
  not called and the collection was not searched.
\<close>

theorem retrieve_blank_query:
  assumes "query = None \<or> (\<exists>q. query = Some q \<and> (\<forall>c \<in> set q. isspace (lib E) c))"
  shows "retrieve E query k s = (Inr [], logged (Called ''retrieve'') s)"
proof -
  from assms have "strip (lib E) (text_or_empty query) = []"
    by (auto simp: text_or_empty_def strip_blank)
  then show ?thesis
    by (simp add: retrieve_def)
qed

theorem retrieve_blank_query_witness:
  "(Some [32, 9, 32] = None \<or>
      (\<exists>q. Some [32, 9, 32] = Some q \<and> (\<forall>c \<in> set q. isspace (lib demo_env) c))) \<and>
   retrieve demo_env (Some [32, 9, 32]) 3 start = (Inr [], logged (Called ''retrieve'') start)"
  using retrieve_blank_query [of "Some [32, 9, 32]" demo_env 3 start]
  by (simp add: demo_env_def ascii_py_def ascii_isspace_def)

subsection \<open>What the record of the state means\<close>

text \<open>
  Each of the three components leaves its mark when it is entered, whatever
  it does afterwards; a state whose record is unchanged is therefore one in
  which none of them ran.
\<close>

lemma retrieve_logs: "Called ''retrieve'' \<in> set (trace (snd (retrieve E q k s)))"
  by (auto simp: retrieve_def Let_def logged_def embed_texts_def split: sum.splits list.splits)

lemma select_title_logs: "Called ''_select_title'' \<in> set (trace (snd (select_title E m items s)))"
  by (auto simp: select_title_def Let_def logged_def split: sum.splits option.splits json.splits)

lemma get_summary_logs:
  "Called ''get_summary_by_title'' \<in> set (trace (snd (get_summary_by_title E title s)))"
  by (auto simp: get_summary_by_title_def Let_def logged_def ensure_cache_def
           split: sum.splits option.splits list.splits prod.splits)

subsection \<open>The example world, run\<close>

lemma demo_passes: "is_offensive ascii_py (asc ''sf'') = None"
  by (simp add: ascii_py_def asc_def is_offensive_def
        search_def OFFENSIVE_PATTERNS_def match_pattern_def at_boundary_def stem_at_def
        word_char_def ascii_isalnum_def ascii_lower_def upt_rec)

lemma demo_respond:
  "respond demo_env (asc ''sf'') start =
     (Inr [Token (asc ''Try ''), Token [],
           Final \<lparr>final = True, recommendation = Some [(''title'', [])], summary = None\<rparr>],
      \<lparr>collection = [], cache = None,
        trace = [Called ''retrieve'', Embedded [asc ''sf''], Queried,
                 Called ''_select_title'', Streamed]\<rparr>)"
  using demo_passes
  by (simp add: respond_def demo_env_def ascii_py_def strip_def asc_def ascii_isspace_def truthy_def
        retrieve_def logged_def start_def text_or_empty_def embed_texts_def first_k_def
        select_title_def candidate_titles_def stream_final_with_summary_def event_generator_def)

subsection \<open>Moderation\<close>

lemma first_some_SomeD: "first_some f xs = Some y \<Longrightarrow> \<exists>x \<in> set xs. f x = Some y"
  by (induction xs) (auto split: option.splits)

lemma patterns_nonempty: "stem \<in> set OFFENSIVE_PATTERNS \<Longrightarrow> stem \<noteq> []"
  by (auto simp: OFFENSIVE_PATTERNS_def asc_def)

lemma match_pattern_end:
  assumes "match_pattern L text i stem = Some e"
  shows "i + length stem \<le> e \<and> i + length stem \<le> length text"
proof -
  from assms have b: "stem_at L stem text i"
    by (simp add: match_pattern_def split: if_splits)
  define js where "js = rev [0..<Suc (length (takeWhile (word_char L) (drop (i + length stem) text)))]"
  from assms have "first_some (\<lambda>j. if at_boundary L text (i + length stem + j)
                                   then Some (i + length stem + j) else None) js = Some e"
    unfolding js_def match_pattern_def Let_def by (simp split: if_splits)
  from first_some_SomeD[OF this] obtain j where "e = i + length stem + j"
    by (auto split: if_splits)
  with b show ?thesis by (simp add: stem_at_def)
qed

lemma is_offensive_nonempty:
  assumes "is_offensive L text = Some t"
  shows "t \<noteq> [] \<and> text \<noteq> []"
proof -
  from assms have ne: "text \<noteq> []" by (simp add: is_offensive_def split: if_splits)
  from assms ne obtain i e where s: "search L text = Some (i, e)" and t: "t = take (e - i) (drop i text)"
    by (auto simp: is_offensive_def split: option.splits)
  from s obtain stem where st: "stem \<in> set OFFENSIVE_PATTERNS" and m: "match_pattern L text i stem = Some e"
    by (auto simp: search_def dest!: first_some_SomeD)
  from match_pattern_end[OF m] patterns_nonempty[OF st]
  have "i < e" "i < length text" by (cases stem; simp)+
  with t ne show ?thesis by simp
qed

text \<open>
  C1. When the moderation gate finds a disallowed term in the trimmed
  message, \<open>respond\<close> answers with exactly two frames, a token frame with
  the fixed redirect message and a final frame whose recommendation and
  summary are both null, whatever the term was. The state comes back as it
  was: nothing was recorded, so neither \<open>retrieve\<close> nor \<open>_select_title\<close> was
  entered and no remote capability was called.
\<close>

theorem moderation_short_circuit:
  assumes "is_offensive (lib E) (strip (lib E) message) = Some t"
  shows "respond E message s =
           (Inr [Token POLICY_MESSAGE,
                 Final \<lparr>final = True, recommendation = None, summary = None\<rparr>], s)"
proof -
  from is_offensive_nonempty[OF assms]
  have "t \<noteq> []" "strip (lib E) message \<noteq> []" by simp_all
  with assms show ?thesis
    by (simp add: respond_def truthy_def event_generator_def stream_policy_reply_def)
qed

theorem moderation_short_circuit_witness:
  "is_offensive (lib demo_env) (strip (lib demo_env) (asc '' idiot '')) = Some (asc ''idiot'') \<and>
   respond demo_env (asc '' idiot '') start =
     (Inr [Token POLICY_MESSAGE,
           Final \<lparr>final = True, recommendation = None, summary = None\<rparr>], start)"
proof -
  have h: "is_offensive (lib demo_env) (strip (lib demo_env) (asc '' idiot '')) = Some (asc ''idiot'')"
    by (simp add: demo_env_def ascii_py_def strip_def asc_def ascii_isspace_def is_offensive_def
          search_def OFFENSIVE_PATTERNS_def match_pattern_def at_boundary_def stem_at_def
          word_char_def ascii_isalnum_def ascii_lower_def upt_rec)
  from h moderation_short_circuit [OF h, of start] show ?thesis by simp
qed

subsection \<open>The frames of a stream\<close>

lemma token_frames_tokens: "\<forall>f \<in> set (token_frames evs). is_token f"
  by (induction evs rule: token_frames.induct) auto

lemma is_token_not_terminal: "is_token f \<Longrightarrow> \<not> is_terminal f"
  by (cases f) auto

lemma stream_final_shape:
  assumes "stream_final_with_summary E message items title s = (g, s')"
  shows "\<exists>toks last. event_generator g = toks @ [last] \<and> (\<forall>f \<in> set toks. is_token f) \<and> is_terminal last"
  using assms token_frames_tokens
  unfolding stream_final_with_summary_def event_generator_def
  by (auto split: prod.splits sum.splits option.splits if_splits)

text \<open>
  C3. Whenever \<open>respond\<close> answers with a stream, its frames are some token
  frames followed by one last frame that is a final frame or an error
  frame; that last frame is the only terminal frame of the stream.
\<close>

theorem terminal_frame_invariant:
  assumes "respond E message s = (Inr frames, s')"
  shows "\<exists>toks last. frames = toks @ [last] \<and> (\<forall>f \<in> set toks. is_token f) \<and> is_terminal last
           \<and> length (filter is_terminal frames) = 1"
proof -
  have shape: "\<exists>toks last. frames = toks @ [last] \<and> (\<forall>f \<in> set toks. is_token f) \<and> is_terminal last"
  proof (cases "truthy (is_offensive (lib E) (strip (lib E) message))")
    case True
    with assms have "frames = [Token POLICY_MESSAGE] @ [Final \<lparr>final = True, recommendation = None, summary = None\<rparr>]"
      by (auto simp: respond_def Let_def event_generator_def stream_policy_reply_def split: if_splits)
    then show ?thesis by (metis is_token.simps(1) is_terminal.simps(2) list.set(1) list.set(2) empty_iff insert_iff)
  next
    case False
    with assms obtain m items title s2 g where
      "stream_final_with_summary E m items title s2 = (g, s')" "frames = event_generator g"
      by (auto simp: respond_def Let_def split: if_splits prod.splits sum.splits)
    with stream_final_shape show ?thesis by blast
  qed
  then obtain toks last where f: "frames = toks @ [last]" and t: "\<forall>f \<in> set toks. is_token f"
    and l: "is_terminal last" by blast
  from t have "filter is_terminal toks = []"
    by (auto simp: filter_empty_conv dest: is_token_not_terminal)
  with f l have "length (filter is_terminal frames) = 1" by simp
  with f t l show ?thesis by blast
qed

theorem terminal_frame_invariant_witness:
  "respond demo_env (asc ''sf'') start =
     (Inr [Token (asc ''Try ''), Token [],
           Final \<lparr>final = True, recommendation = Some [(''title'', [])], summary = None\<rparr>],
      \<lparr>collection = [], cache = None,
        trace = [Called ''retrieve'', Embedded [asc ''sf''], Queried,
                 Called ''_select_title'', Streamed]\<rparr>) \<and>
   (\<exists>toks last.
      [Token (asc ''Try ''), Token [],
       Final \<lparr>final = True, recommendation = Some [(''title'', [])], summary = None\<rparr>]
        = toks @ [last]
      \<and> (\<forall>f \<in> set toks. is_token f) \<and> is_terminal last
      \<and> length (filter is_terminal
           [Token (asc ''Try ''), Token [],
            Final \<lparr>final = True, recommendation = Some [(''title'', [])], summary = None\<rparr>]) = 1)"
  using demo_respond terminal_frame_invariant [OF demo_respond] by simp

subsection \<open>Title selection\<close>

lemma strip_Nil: "strip L [] = []"
  by (simp add: strip_def)

lemma candidate_titles_filter:
  "candidate_titles L items =
     filter (\<lambda>t. t \<noteq> []) (map (\<lambda>x. strip L (text_or_empty (r_title x))) items)"
proof (induction items)
  case Nil
  show ?case by (simp add: candidate_titles_def)
next
  case (Cons x xs)
  then show ?case
    by (cases "r_title x") (auto simp: candidate_titles_def truthy_def text_or_empty_def strip_Nil)
qed

text \<open>
  The part of C5 that holds. Let the candidate title list be non-empty and
  let the completion capability answer. Then \<open>_select_title\<close> returns one
  of the candidates. If the answer does not decode as JSON, or decodes to
  something that is not an object, or to an object whose title is not in the
  candidate list, the result is the first candidate; so a reply \<open>nope\<close>
  over the candidates \<open>Dune\<close> and \<open>The Hobbit\<close> gives \<open>Dune\<close>.
\<close>

lemma select_title_fallback:
  assumes titles: "candidate_titles (lib E) items = t0 # ts"
      and reply: "responses_create E message (t0 # ts) = Inr reply"
  shows "\<exists>t. select_title E message items s
               = (Inr t, logged Completed (logged (Called ''_select_title'') s))
            \<and> t \<in> set (t0 # ts)
            \<and> ((\<forall>kvs. json_loads (lib E) (strip (lib E) (text_or_empty reply)) = Some (JDict kvs)
                       \<longrightarrow> strip (lib E) (get_title kvs) \<notin> set (t0 # ts))
                 \<longrightarrow> t = t0)"
proof (cases "json_loads (lib E) (strip (lib E) (text_or_empty reply))")
  case None
  with titles reply show ?thesis
    by (simp add: select_title_def Let_def first_title_def)
next
  case (Some j)
  show ?thesis
  proof (cases j)
    case JNotDict
    with Some titles reply show ?thesis
      by (simp add: select_title_def Let_def first_title_def)
  next
    case (JDict kvs)
    with Some titles reply show ?thesis
      by (auto simp: select_title_def Let_def first_title_def)
  qed
qed

lemma select_title_fallback_example:
  "candidate_titles (lib demo_env) [titled (asc ''Dune''), titled (asc ''The Hobbit'')]
      = [asc ''Dune'', asc ''The Hobbit'']
   \<and> responses_create demo_env (asc ''sf'') [asc ''Dune'', asc ''The Hobbit''] = Inr (Some (asc ''nope''))
   \<and> json_loads (lib demo_env) (strip (lib demo_env) (text_or_empty (Some (asc ''nope'')))) = None
   \<and> select_title demo_env (asc ''sf'') [titled (asc ''Dune''), titled (asc ''The Hobbit'')] start
       = (Inr (asc ''Dune''), logged Completed (logged (Called ''_select_title'') start))"
proof -
  have a: "candidate_titles (lib demo_env) [titled (asc ''Dune''), titled (asc ''The Hobbit'')]
      = asc ''Dune'' # [asc ''The Hobbit'']"
    by (simp add: candidate_titles_def titled_def truthy_def text_or_empty_def strip_def ascii_py_def
        asc_def ascii_isspace_def demo_env_def)
  have b: "responses_create demo_env (asc ''sf'') (asc ''Dune'' # [asc ''The Hobbit'']) = Inr (Some (asc ''nope''))"
    by (simp add: demo_env_def)
  have c: "json_loads (lib demo_env) (strip (lib demo_env) (text_or_empty (Some (asc ''nope'')))) = None"
    by (simp add: demo_env_def ascii_py_def text_or_empty_def strip_def asc_def ascii_isspace_def
          flat_json_loads_def json_ws_def)
  from select_title_fallback [OF a b, of start] a b c show ?thesis by auto
qed

text \<open>
  The call to the completion capability stands before the \<open>try\<close> of
  \<open>_select_title\<close>: when the call raises, so does \<open>_select_title\<close>.
\<close>

lemma select_title_call_failure:
  assumes "candidate_titles (lib E) items \<noteq> []"
      and "responses_create E message (candidate_titles (lib E) items) = Inl e"
  shows "select_title E message items s
           = (Inl e, logged Completed (logged (Called ''_select_title'') s))"
  using assms by (simp add: select_title_def Let_def)

text \<open>
  C5 does not hold of the code. The selection step is to fall back to the
  first candidate and never to raise, and the docstring of \<open>_select_title\<close>
  says that on failure the first title is returned; but only the decoding
  of the reply is inside the \<open>try\<close>. Here the code is run on two
  candidates, \<open>Dune\<close> and \<open>The Hobbit\<close>, with the completion capability
  out of order: \<open>_select_title\<close> raises the error of the provider instead of
  returning \<open>Dune\<close>.
\<close>

theorem select_title_call_failure_raises:
  "candidate_titles (lib selection_down) [titled (asc ''Dune''), titled (asc ''The Hobbit'')]
      = [asc ''Dune'', asc ''The Hobbit'']
   \<and> responses_create selection_down (asc ''sf'') [asc ''Dune'', asc ''The Hobbit'']
      = Inl (ProviderError (asc ''completion service unavailable''))
   \<and> select_title selection_down (asc ''sf'') [titled (asc ''Dune''), titled (asc ''The Hobbit'')] start
      = (Inl (ProviderError (asc ''completion service unavailable'')),
         logged Completed (logged (Called ''_select_title'') start))"
proof -
  have a: "candidate_titles (lib selection_down) [titled (asc ''Dune''), titled (asc ''The Hobbit'')]
      = [asc ''Dune'', asc ''The Hobbit'']"
    by (simp add: candidate_titles_def titled_def truthy_def text_or_empty_def strip_def ascii_py_def
        asc_def ascii_isspace_def demo_env_def selection_down_def)
  have b: "responses_create selection_down (asc ''sf'') [asc ''Dune'', asc ''The Hobbit'']
      = Inl (ProviderError (asc ''completion service unavailable''))"
    by (simp add: selection_down_def)
  from a b have "select_title selection_down (asc ''sf'')
        [titled (asc ''Dune''), titled (asc ''The Hobbit'')] start
      = (Inl (ProviderError (asc ''completion service unavailable'')),
         logged Completed (logged (Called ''_select_title'') start))"
    by (simp add: select_title_call_failure)
  with a b show ?thesis by (intro conjI)
qed

text \<open>
  C7, as the code has it. The candidate list is built match by match, in
  the order of retrieval: a match contributes its trimmed title when that is
  not empty, and nothing otherwise; a title retrieved twice is listed twice.
  When the list is empty \<open>_select_title\<close> returns the empty string without
  asking the completion capability.
\<close>

theorem candidate_titles_kept:
  "candidate_titles L (xs @ ys) = candidate_titles L xs @ candidate_titles L ys
   \<and> candidate_titles L [x] =
       (if strip L (text_or_empty (r_title x)) = [] then []
        else [strip L (text_or_empty (r_title x))])
   \<and> (candidate_titles (lib E) items = [] \<longrightarrow>
        select_title E message items s = (Inr [], logged (Called ''_select_title'') s))"
  by (simp add: candidate_titles_filter select_title_def Let_def)

theorem candidate_titles_kept_witness:
  "candidate_titles (lib demo_env) [] = []
   \<and> select_title demo_env (asc ''sf'') [] start = (Inr [], logged (Called ''_select_title'') start)
   \<and> candidate_titles ascii_py ([titled (asc ''Dune'')] @ [titled (asc ''Dune'')])
       = candidate_titles ascii_py [titled (asc ''Dune'')] @ candidate_titles ascii_py [titled (asc ''Dune'')]"
proof -
  have a: "candidate_titles (lib demo_env) [] = []"
    by (simp add: candidate_titles_def)
  from candidate_titles_kept [of ascii_py "[titled (asc ''Dune'')]" "[titled (asc ''Dune'')]" "titled []" demo_env "[]" "asc ''sf''" start] a
  show ?thesis by simp
qed

text \<open>
  C7 as stated fails: nothing removes a repeated title. Two matches titled
  \<open>Dune\<close> give the candidate list \<open>Dune, Dune\<close>.
\<close>

theorem candidate_titles_distinct_counterexample:
  "candidate_titles ascii_py [titled (asc ''Dune''), titled (asc ''Dune'')] = [asc ''Dune'', asc ''Dune'']
   \<and> \<not> distinct (candidate_titles ascii_py [titled (asc ''Dune''), titled (asc ''Dune'')])"
  by (simp add: candidate_titles_def titled_def truthy_def text_or_empty_def strip_def ascii_py_def
        asc_def ascii_isspace_def)

subsection \<open>The final frame\<close>

lemma final_summary_field:
  assumes "stream_final_with_summary E m items title s = ((frames, failure), s')"
      and "Final f \<in> set frames"
  shows "\<exists>summ. (if title \<noteq> [] then fst (get_summary_by_title E title s) else Inr []) = Inr summ
           \<and> recommendation f = Some [(''title'', title)]
           \<and> (summary f = None \<longleftrightarrow> summ = [])"
proof -
  have nf: "\<And>evs. Final f \<notin> set (token_frames evs)"
  proof -
    fix evs show "Final f \<notin> set (token_frames evs)"
      by (induction evs rule: token_frames.induct) auto
  qed
  from assms show ?thesis
    unfolding stream_final_with_summary_def
    by (auto simp: nf split: sum.splits option.splits prod.splits if_splits)
qed

text \<open>
  C10. Take a request that passes moderation, for which retrieval succeeds
  and the selected title is the empty string. Then, after selection, the only
  thing \<open>respond\<close> does is open the completion stream: \<open>get_summary_by_title\<close>
  is not entered and the summary passed on is empty. Any final frame of the
  answer carries the recommendation \<open>{"title": ""}\<close>, an object and not
  null, and a null summary; such a frame ends the stream whenever the
  provider's stream ends without raising. For any title, the summary of a
  final frame is null exactly when the resolved summary text is empty.
\<close>

theorem empty_title_final:
  assumes m: "strip (lib E) payload = m" "m \<noteq> []"
      and pass: "\<not> truthy (is_offensive (lib E) m)"
      and r: "retrieve E (Some m) 3 s = (Inr items, s1)"
      and t: "select_title E m items s1 = (Inr [], s2)"
  shows "snd (respond E payload s) = logged Streamed s2
       \<and> (\<exists>frames. fst (respond E payload s) = Inr frames
            \<and> (\<forall>f. Final f \<in> set frames \<longrightarrow>
                  f = \<lparr>final = True, recommendation = Some [(''title'', [])], summary = None\<rparr>)
            \<and> (\<forall>events. responses_stream E m [] items [] = Inr (events, None) \<longrightarrow>
                  frames = token_frames events
                    @ [Final \<lparr>final = True, recommendation = Some [(''title'', [])],
                              summary = None\<rparr>]))
       \<and> (\<forall>title s0 frames failure s' f.
             stream_final_with_summary E m items title s0 = ((frames, failure), s') \<longrightarrow>
             Final f \<in> set frames \<longrightarrow>
             (\<exists>summ. (if title \<noteq> [] then fst (get_summary_by_title E title s0) else Inr [])
                        = Inr summ
                  \<and> recommendation f = Some [(''title'', title)]
                  \<and> (summary f = None \<longleftrightarrow> summ = [])))"
proof -
  have nf: "\<And>evs f. Final f \<notin> set (token_frames evs)"
  proof -
    fix evs f show "Final f \<notin> set (token_frames evs)"
      by (induction evs rule: token_frames.induct) auto
  qed
  from m pass r t
  have A: "snd (respond E payload s) = logged Streamed s2
       \<and> (\<exists>frames. fst (respond E payload s) = Inr frames
            \<and> (\<forall>f. Final f \<in> set frames \<longrightarrow>
                  f = \<lparr>final = True, recommendation = Some [(''title'', [])], summary = None\<rparr>)
            \<and> (\<forall>events. responses_stream E m [] items [] = Inr (events, None) \<longrightarrow>
                  frames = token_frames events
                    @ [Final \<lparr>final = True, recommendation = Some [(''title'', [])],
                              summary = None\<rparr>]))"
    by (auto simp: respond_def Let_def stream_final_with_summary_def event_generator_def nf
             split: sum.splits option.splits prod.splits)
  have B: "\<forall>title s0 frames failure s' f.
             stream_final_with_summary E m items title s0 = ((frames, failure), s') \<longrightarrow>
             Final f \<in> set frames \<longrightarrow>
             (\<exists>summ. (if title \<noteq> [] then fst (get_summary_by_title E title s0) else Inr [])
                        = Inr summ
                  \<and> recommendation f = Some [(''title'', title)]
                  \<and> (summary f = None \<longleftrightarrow> summ = []))"
    using final_summary_field by blast
  show ?thesis
    by (rule conjI [OF A [THEN conjunct1] conjI [OF A [THEN conjunct2] B]])
qed

theorem empty_title_final_witness:
  "strip (lib demo_env) (asc ''sf'') = asc ''sf'' \<and> asc ''sf'' \<noteq> []
   \<and> \<not> truthy (is_offensive (lib demo_env) (asc ''sf''))
   \<and> retrieve demo_env (Some (asc ''sf'')) 3 start
       = (Inr [], logged Queried (logged (Embedded [asc ''sf'']) (logged (Called ''retrieve'') start)))
   \<and> select_title demo_env (asc ''sf'') []
         (logged Queried (logged (Embedded [asc ''sf'']) (logged (Called ''retrieve'') start)))
       = (Inr [], logged (Called ''_select_title'')
                    (logged Queried (logged (Embedded [asc ''sf'']) (logged (Called ''retrieve'') start))))
   \<and> responses_stream demo_env (asc ''sf'') [] [] [] = Inr ([Delta (asc ''Try ''), OtherEvent, Delta []], None)
   \<and> fst (respond demo_env (asc ''sf'') start)
       = Inr [Token (asc ''Try ''), Token [],
              Final \<lparr>final = True, recommendation = Some [(''title'', [])], summary = None\<rparr>]"
proof -
  have a: "strip (lib demo_env) (asc ''sf'') = asc ''sf''"
    by (simp add: demo_env_def ascii_py_def strip_def asc_def ascii_isspace_def)
  have b: "asc ''sf'' \<noteq> []" by (simp add: asc_def)
  have c: "\<not> truthy (is_offensive (lib demo_env) (asc ''sf''))"
    using demo_passes by (simp add: demo_env_def truthy_def)
  have d: "retrieve demo_env (Some (asc ''sf'')) 3 start
       = (Inr [], logged Queried (logged (Embedded [asc ''sf'']) (logged (Called ''retrieve'') start)))"
    using a b
    by (simp add: retrieve_def text_or_empty_def embed_texts_def first_k_def)
       (simp add: demo_env_def first_k_def start_def logged_def)
  have e: "select_title demo_env (asc ''sf'') []
         (logged Queried (logged (Embedded [asc ''sf'']) (logged (Called ''retrieve'') start)))
       = (Inr [], logged (Called ''_select_title'')
                    (logged Queried (logged (Embedded [asc ''sf'']) (logged (Called ''retrieve'') start))))"
    by (simp add: select_title_def candidate_titles_def)
  have f: "responses_stream demo_env (asc ''sf'') [] [] [] = Inr ([Delta (asc ''Try ''), OtherEvent, Delta []], None)"
    by (simp add: demo_env_def)
  note T = empty_title_final [OF a b c d e]
  from T obtain frames where fr: "fst (respond demo_env (asc ''sf'') start) = Inr frames"
    and ev: "\<forall>events. responses_stream demo_env (asc ''sf'') [] [] [] = Inr (events, None) \<longrightarrow>
                  frames = token_frames events
                    @ [Final \<lparr>final = True, recommendation = Some [(''title'', [])],
                              summary = None\<rparr>]"
    by (elim conjE exE)
  from ev [rule_format, OF f] have "frames = [Token (asc ''Try ''), Token [],
              Final \<lparr>final = True, recommendation = Some [(''title'', [])], summary = None\<rparr>]"
    by simp
  with fr have g: "fst (respond demo_env (asc ''sf'') start)
       = Inr [Token (asc ''Try ''), Token [],
              Final \<lparr>final = True, recommendation = Some [(''title'', [])], summary = None\<rparr>]"
    by simp
  from a b c d e f g show ?thesis by (intro conjI)
qed

subsection \<open>Remote failures\<close>

text \<open>
  A failure of the completion stream is caught inside the generator and
  becomes the one error frame of the answer.
\<close>

lemma stream_failure_error_frame:
  assumes "responses_stream E m title items summ = Inl e"
      and "(if title \<noteq> [] then get_summary_by_title E title s else (Inr [], s)) = (Inr summ, s1)"
  shows "event_generator (fst (stream_final_with_summary E m items title s)) = [Error (str_exn e)]"
  using assms by (simp add: stream_final_with_summary_def event_generator_def)

text \<open>
  C2 does not hold of the code. \<open>retrieve\<close> and \<open>_select_title\<close> are called
  by \<open>respond\<close> before the generator exists, outside its \<open>try\<close>: when the
  embedding capability or the selection call raises, \<open>respond\<close> raises the
  same exception, and there is no stream and no error frame. Here the code
  is run on a request that passes moderation, once with the embedding
  capability out of order and once with the completion capability out of
  order.
\<close>

theorem respond_remote_failure_raises:
  "respond embedding_down (asc ''sf'') start =
     (Inl (ProviderError (asc ''embedding service unavailable'')),
      \<lparr>collection = [], cache = None, trace = [Called ''retrieve'', Embedded [asc ''sf'']]\<rparr>)
   \<and> respond selection_down (asc ''sf'') stocked =
     (Inl (ProviderError (asc ''completion service unavailable'')),
      stocked\<lparr>trace := [Called ''retrieve'', Embedded [asc ''sf''], Queried,
                         Called ''_select_title'', Completed]\<rparr>)"
proof -
  have s: "strip ascii_py (asc ''sf'') = asc ''sf''"
    by (simp add: ascii_py_def strip_def asc_def ascii_isspace_def)
  have ne: "asc ''sf'' \<noteq> []" by (simp add: asc_def)
  have a: "respond embedding_down (asc ''sf'') start =
     (Inl (ProviderError (asc ''embedding service unavailable'')),
      \<lparr>collection = [], cache = None, trace = [Called ''retrieve'', Embedded [asc ''sf'']]\<rparr>)"
    using demo_passes s ne
    by (simp add: respond_def embedding_down_def demo_env_def truthy_def retrieve_def
          text_or_empty_def embed_texts_def logged_def start_def)
  have b: "respond selection_down (asc ''sf'') stocked =
     (Inl (ProviderError (asc ''completion service unavailable'')),
      stocked\<lparr>trace := [Called ''retrieve'', Embedded [asc ''sf''], Queried,
                         Called ''_select_title'', Completed]\<rparr>)"
    using demo_passes s ne
    by (simp add: respond_def selection_down_def demo_env_def truthy_def retrieve_def
          text_or_empty_def embed_texts_def logged_def stocked_def first_k_def match_at_def
          select_title_def candidate_titles_def)
       (simp add: ascii_py_def strip_def asc_def ascii_isspace_def)
  from a b show ?thesis by (rule conjI)
qed

subsection \<open>Populating the index\<close>


lemma col_add_nonempty:
  assumes "col_add ids docs vectors metas s = (Inr u, s2)" and "docs \<noteq> [] \<or> 0 < col_count s"
  shows "0 < col_count s2"
proof (cases "collection s")
  case Nil
  with assms have len: "length docs = length ids" "length vectors = length ids"
    "length metas = length ids" and ne: "docs \<noteq> []"
    by (auto simp: col_add_def col_count_def split: if_splits)
  from Nil assms have "collection s2 = new_docs ids docs vectors metas"
    by (auto simp: col_add_def logged_def split: if_splits)
  moreover from len have "length (new_docs ids docs vectors metas) = length ids"
    by (simp add: new_docs_def)
  moreover from len(1) ne have "0 < length ids" by (cases docs) auto
  ultimately show ?thesis
    by (simp add: col_count_def)
next
  case (Cons d ds)
  with assms show ?thesis
    by (auto simp: col_add_def col_count_def logged_def split: if_splits)
qed

lemma index_batches_done:
  "\<not> i < length docs \<Longrightarrow> index_batches E ids docs metas i added s = (Inr added, s)"
  by (simp add: index_batches.simps)

lemma index_batches_nonempty:
  assumes "index_batches E ids docs metas i added s = (Inr a, s')"
      and "i < length docs \<or> 0 < col_count s"
  shows "0 < col_count s'"
  using assms
proof (induction E ids docs metas i added s rule: index_batches.induct)
  case (1 E ids docs metas i added s)
  show ?case
  proof (cases "i < length docs")
    case False
    with "1.prems" show ?thesis by (simp add: index_batches.simps)
  next
    case True
    let ?bi = "take BATCH (drop i ids)" and ?bd = "take BATCH (drop i docs)"
    let ?bm = "take BATCH (drop i metas)"
    from True have bd: "?bd \<noteq> []" by (simp add: BATCH_def)
    from True "1.prems"(1) obtain vectors s1 u s2 where
      e: "embed_texts E ?bd s = (Inr vectors, s1)" and
      c: "col_add ?bi ?bd vectors ?bm s1 = (Inr u, s2)" and
      rec: "index_batches E ids docs metas (i + BATCH) (added + length ?bi) s2 = (Inr a, s')"
      by (subst (asm) index_batches.simps)
         (auto simp: Let_def split: prod.splits sum.splits)
    from col_add_nonempty [OF c] bd have pos: "0 < col_count s2" by simp
    from "1.IH" [OF True refl refl refl e [symmetric] refl c [symmetric] refl rec] pos
    show ?thesis by simp
  qed
qed

lemma demo_first_run:
  "fst (index_books False demo_env start) = Inr (3, 0)"
  by code_simp

lemma demo_first_count:
  "col_count (snd (index_books False demo_env start)) = 3"
  by code_simp

text \<open>
  C4, as the code has it. \<open>index_books\<close> reads the catalog before it looks
  at the collection. When the catalog loads, the collection holds a document
  and \<open>force\<close> is false, it returns \<open>(0, count)\<close> and leaves the state as it
  was: no embedding call, no insertion. Hence, whenever a call with
  \<open>force=False\<close> returns, the next one returns \<open>(0, N)\<close> for the count \<open>N\<close>
  of the collection and does nothing. When the catalog does not load, the
  call raises the error of the load and does nothing else.
\<close>

theorem index_books_populated:
  "(load_books E = Inr books \<longrightarrow> 0 < col_count s \<longrightarrow>
      index_books False E s = (Inr (0, int (col_count s)), s))
   \<and> (\<forall>r s1. index_books False E s = (Inr r, s1) \<longrightarrow>
         index_books False E s1 = (Inr (0, int (col_count s1)), s1))
   \<and> (load_books E = Inl e \<longrightarrow> index_books force E s = (Inl e, s))"
proof -
  have early: "index_books False E s0 = (Inr (0, int (col_count s0)), s0)"
    if "load_books E = Inr bs" "0 < col_count s0" for bs s0
    using that by (simp add: index_books_def)
  have twice: "index_books False E s1 = (Inr (0, int (col_count s1)), s1)"
    if run: "index_books False E s = (Inr r, s1)" for r s1
  proof -
    from run obtain bs where bs: "load_books E = Inr bs"
      by (auto simp: index_books_def split: sum.splits)
    show ?thesis
    proof (cases "0 < col_count s")
      case True
      with bs run have "s1 = s" by (simp add: index_books_def)
      with early [OF bs True] show ?thesis by simp
    next
      case False
      obtain ids docs metas where rows: "index_rows (lib E) bs = (ids, docs, metas)"
        by (cases "index_rows (lib E) bs") auto
      from False bs run rows obtain added where
        b: "index_batches E ids docs metas 0 0 s = (Inr added, s1)"
        by (auto simp: index_books_def Let_def split: prod.splits sum.splits)
      show ?thesis
      proof (cases "docs = []")
        case True
        with b have "s1 = s" "added = 0" by (simp_all add: index_batches.simps)
        with False bs rows True show ?thesis
          by (simp add: index_books_def index_batches.simps)
      next
        case ne: False
        with index_batches_nonempty [OF b] have "0 < col_count s1" by simp
        with early [OF bs] show ?thesis by simp
      qed
    qed
  qed
  have missing: "index_books force E s = (Inl e, s)" if "load_books E = Inl e"
    using that by (simp add: index_books_def)
  from early twice missing show ?thesis by blast
qed

theorem index_books_populated_witness:
  "load_books demo_env = Inr [dune_messiah, dune, hobbit]
   \<and> 0 < col_count stocked
   \<and> index_books False demo_env stocked = (Inr (0, 1), stocked)
   \<and> fst (index_books False demo_env start) = Inr (3, 0)
   \<and> index_books False demo_env (snd (index_books False demo_env start))
       = (Inr (0, 3), snd (index_books False demo_env start))
   \<and> load_books catalog_missing = Inl (FileNotFoundError (asc ''books file not found''))
   \<and> index_books True catalog_missing stocked
       = (Inl (FileNotFoundError (asc ''books file not found'')), stocked)"
proof -
  have a: "load_books demo_env = Inr [dune_messiah, dune, hobbit]"
    by (simp add: load_books_def demo_env_def)
  have b: "0 < col_count stocked" by (simp add: col_count_def stocked_def)
  have c: "col_count stocked = 1" by (simp add: col_count_def stocked_def)
  have d: "index_books False demo_env start = (Inr (3, 0), snd (index_books False demo_env start))"
    using demo_first_run by (cases "index_books False demo_env start") simp
  have e: "load_books catalog_missing = Inl (FileNotFoundError (asc ''books file not found''))"
    by (simp add: load_books_def catalog_missing_def demo_env_def)
  note T1 = index_books_populated [of demo_env "[dune_messiah, dune, hobbit]" stocked]
  note T2 = index_books_populated [of demo_env "[dune_messiah, dune, hobbit]" start]
  note T3 = index_books_populated [of catalog_missing "[]" stocked
              "FileNotFoundError (asc ''books file not found'')" True]
  from T1 a b c have r1: "index_books False demo_env stocked = (Inr (0, 1), stocked)" by simp
  from T2 [THEN conjunct2, THEN conjunct1, rule_format, OF d] demo_first_count
  have r2: "index_books False demo_env (snd (index_books False demo_env start))
       = (Inr (0, 3), snd (index_books False demo_env start))" by simp
  from T3 e have r3: "index_books True catalog_missing stocked
       = (Inl (FileNotFoundError (asc ''books file not found'')), stocked)" by simp
  from a b r1 demo_first_run r2 e r3 show ?thesis by (intro conjI)
qed

text \<open>
  C4 as stated fails: with a document in the collection, \<open>force=False\<close> and
  no catalog file, \<open>index_books\<close> raises \<open>FileNotFoundError\<close> instead of
  returning \<open>(0, 1)\<close>.
\<close>

theorem index_books_populated_counterexample:
  "0 < col_count stocked
   \<and> index_books False catalog_missing stocked
       = (Inl (FileNotFoundError (asc ''books file not found'')), stocked)
   \<and> fst (index_books False catalog_missing stocked) \<noteq> Inr (0, int (col_count stocked))"
  by (simp add: index_books_def load_books_def catalog_missing_def demo_env_def col_count_def
        stocked_def)

subsection \<open>Document ids\<close>





lemma index_rows_lengths:
  "index_rows L books = (ids, docs, metas) \<Longrightarrow>
     length docs = length ids \<and> length metas = length ids"
  by (induction books arbitrary: ids docs metas) (auto simp: Let_def split: prod.splits if_splits)












subsection \<open>Summary lookup\<close>

lemma map_of_dict_set: "map_of (dict_set k v al) k' = (if k' = k then Some v else map_of al k')"
  by (induction al) auto

lemma title_index_sound:
  "map_of (title_index L books idx0) k = Some b \<Longrightarrow>
     map_of idx0 k = Some b
     \<or> (b \<in> set books \<and> k = norm L (strip L (text_or_empty (b_title b)))
          \<and> strip L (text_or_empty (b_title b)) \<noteq> [])"
proof (induction books arbitrary: idx0)
  case Nil
  then show ?case by simp
next
  case (Cons x xs)
  from Cons.IH [OF Cons.prems [simplified title_index.simps Let_def]]
  show ?case
    by (auto simp: map_of_dict_set split: if_splits)
qed

lemma keys_dict_set: "fst ` set (dict_set k v al) = insert k (fst ` set al)"
proof -
  have "dom (map_of (dict_set k v al)) = insert k (dom (map_of al))"
    by (auto simp: map_of_dict_set dom_def)
  then show ?thesis by (simp add: dom_map_of_conv_image_fst)
qed

lemma title_index_key_set:
  "fst ` set (title_index L books idx0) = fst ` set idx0 \<union> set (normalized_titles L books)"
proof (induction books arbitrary: idx0)
  case Nil
  show ?case by (simp add: normalized_titles_def)
next
  case (Cons x xs)
  show ?case
  proof (cases "strip L (text_or_empty (b_title x)) = []")
    case True
    then show ?thesis using Cons.IH [of idx0] by (simp add: normalized_titles_def)
  next
    case False
    then show ?thesis
      using Cons.IH [of "dict_set (norm L (strip L (text_or_empty (b_title x)))) x idx0"]
      by (simp add: normalized_titles_def keys_dict_set)
  qed
qed

lemma title_index_keys:
  "map_of (title_index L books []) k = None \<longleftrightarrow> k \<notin> set (normalized_titles L books)"
  using title_index_key_set [of L books "[]"] by (simp add: map_of_eq_None_iff)

lemma find_dict_set:
  "find P (map fst (dict_set k v al))
     = (case find P (map fst al) of Some k' \<Rightarrow> Some k' | None \<Rightarrow> if P k then Some k else None)"
  by (induction al) (auto split: option.splits)

lemma find_title_index:
  "find P (map fst (title_index L books idx0))
     = (case find P (map fst idx0) of
          Some k \<Rightarrow> Some k
        | None \<Rightarrow> find P (normalized_titles L books))"
proof (induction books arbitrary: idx0)
  case Nil
  show ?case by (simp add: normalized_titles_def split: option.splits)
next
  case (Cons x xs)
  show ?case
    by (simp add: Cons.IH Let_def find_dict_set normalized_titles_def split: option.splits)
qed

lemma find_holds: "find P xs = Some k \<Longrightarrow> P k"
  by (induction xs) (auto split: if_splits)

lemma first_candidate:
  "find P (map fst idx) = Some k \<Longrightarrow>
     \<exists>b rest. map_of idx k = Some b \<and> map snd (filter (\<lambda>(tkey, b). P tkey) idx) = b # rest"
  by (induction idx) (auto split: if_splits dest: find_holds)

lemma no_candidate:
  "find P (map fst idx) = None \<Longrightarrow> map snd (filter (\<lambda>(tkey, b). P tkey) idx) = []"
  by (induction idx) (auto split: if_splits)

lemma ensure_cache_loaded:
  assumes "load_books E = Inr books"
      and "cache s = None \<or> cache s = Some (books, title_index (lib E) books [])"
  shows "fst (ensure_cache E s) = Inr (books, title_index (lib E) books [])"
  using assms by (auto simp: ensure_cache_def Let_def)


lemma candidates_for_matches:
  "candidates_for key idx = map snd (filter (\<lambda>(tkey, b). title_matches key tkey) idx)"
  by (simp add: candidates_for_def title_matches_def)

lemma get_summary_stages:
  assumes lb: "load_books E = Inr books"
      and inv: "cache s = None \<or> cache s = Some (books, title_index (lib E) books [])"
      and t: "strip (lib E) title \<noteq> []"
  shows "fst (get_summary_by_title E title s) =
           (case map_of (title_index (lib E) books []) (norm (lib E) title) of
              Some b \<Rightarrow> Inr (summary_exact (lib E) b)
            | None \<Rightarrow>
                (case candidates_for (norm (lib E) title) (title_index (lib E) books []) of
                   c # cs \<Rightarrow> Inr (summary_best (lib E) c)
                 | [] \<Rightarrow>
                     (case get_close_matches (lib E) title
                             (map (\<lambda>b. text_or_empty (b_title b)) books) 1 (6 / 10) of
                        [] \<Rightarrow> Inr (not_found title)
                      | ct # rest \<Rightarrow>
                          (case map_of (title_index (lib E) books []) (norm (lib E) ct) of
                             None \<Rightarrow> Inl (KeyError (str_repr (lib E) (norm (lib E) ct)))
                           | Some b \<Rightarrow> Inr (summary_close (lib E) ct b)))))"
proof -
  let ?s = "logged (Called ''get_summary_by_title'') s"
  from inv have "cache ?s = None \<or> cache ?s = Some (books, title_index (lib E) books [])"
    by (simp add: logged_def)
  from ensure_cache_loaded [OF lb this] obtain s1 where
    ec: "ensure_cache E ?s = (Inr (books, title_index (lib E) books []), s1)"
    by (cases "ensure_cache E ?s") auto
  from t have "title \<noteq> []" by (auto simp: strip_def)
  with t ec show ?thesis
    by (simp add: get_summary_by_title_def Let_def split: option.splits list.splits)
qed

text \<open>
  Which entry the index holds under a key: the last entry of the catalog
  that carries this normalized title, since a later entry overwrites an
  earlier one in place.
\<close>

lemma normalized_titles_alt:
  "normalized_titles L books = map (normalized_title L) (filter (has_title L) books)"
  by (simp add: normalized_titles_def has_title_def [abs_def] normalized_title_def [abs_def])

lemma index_last:
  "map_of (title_index L books idx0) k
     = (case entries_titled L k books of
          [] \<Rightarrow> map_of idx0 k
        | e # es \<Rightarrow> Some (last (e # es)))"
proof (induction books arbitrary: idx0)
  case Nil
  show ?case by (simp add: entries_titled_def)
next
  case (Cons x xs)
  show ?case
    by (simp add: Cons.IH Let_def map_of_dict_set entries_titled_def has_title_def
          normalized_title_def split: list.splits)
qed

lemma entries_titled_nonempty:
  "entries_titled L k books \<noteq> [] \<longleftrightarrow> k \<in> set (normalized_titles L books)"
  by (auto simp: entries_titled_def normalized_titles_def has_title_def normalized_title_def
        filter_empty_conv)

lemma index_entry:
  assumes "k \<in> set (normalized_titles L books)"
  shows "map_of (title_index L books []) k = Some (last (entries_titled L k books))"
proof -
  from assms entries_titled_nonempty [of L k books]
  obtain e es where "entries_titled L k books = e # es"
    by (cases "entries_titled L k books") auto
  then show ?thesis by (simp add: index_last)
qed

lemma find_member: "find P xs = Some k \<Longrightarrow> k \<in> set xs"
  by (induction xs) (auto split: if_splits)

lemma find_map_filter:
  "find P (map f (filter N xs)) = map_option f (find (\<lambda>x. N x \<and> P (f x)) xs)"
  by (induction xs) auto

lemma only_entry:
  "distinct (map f (filter N xs)) \<Longrightarrow> b \<in> set xs \<Longrightarrow> N b \<Longrightarrow>
     filter (\<lambda>x. N x \<and> f x = f b) xs = [b]"
proof (induction xs)
  case Nil
  then show ?case by simp
next
  case (Cons x xs)
  show ?case
  proof (cases "x = b")
    case True
    with Cons.prems have nb: "f b \<notin> f ` set (filter N xs)" by simp
    have "filter (\<lambda>x. N x \<and> f x = f b) xs = []"
    proof (rule ccontr)
      assume "filter (\<lambda>x. N x \<and> f x = f b) xs \<noteq> []"
      then obtain y where "y \<in> set xs" "N y" "f y = f b"
        by (auto simp: filter_empty_conv)
      then have e: "f b = f y" and m: "y \<in> set (filter N xs)" by simp_all
      from imageI [OF m, of f] e have "f b \<in> f ` set (filter N xs)" by simp
      with nb show False by simp
    qed
    with True Cons.prems show ?thesis by simp
  next
    case False
    with Cons.prems have b: "b \<in> set xs" by simp
    from Cons.prems have d: "distinct (map f (filter N xs))" by (simp split: if_splits)
    have "\<not> (N x \<and> f x = f b)"
    proof
      assume a: "N x \<and> f x = f b"
      with Cons.prems(1) have "f x \<notin> f ` set (filter N xs)" by simp
      moreover from b Cons.prems(3) a have e: "f x = f b" and m: "b \<in> set (filter N xs)"
        by simp_all
      from imageI [OF m, of f] e have "f x \<in> f ` set (filter N xs)" by simp
      ultimately show False by simp
    qed
    with Cons.IH [OF d b Cons.prems(3)] show ?thesis by simp
  qed
qed

lemma entries_titled_only:
  assumes "distinct (normalized_titles L books)" and "b \<in> set books" and "has_title L b"
  shows "entries_titled L (normalized_title L b) books = [b]"
  using only_entry [of "normalized_title L" "has_title L" books b] assms
  by (simp add: entries_titled_def normalized_titles_alt)

lemma first_candidate_title:
  "find (title_matches key) (normalized_titles L books)
     = map_option (normalized_title L) (find (is_candidate L key) books)"
  by (simp add: normalized_titles_alt find_map_filter is_candidate_def [abs_def])

text \<open>
  C6, as the code has it. Let the catalog load, the cache be empty or built
  from this catalog, and the title be not blank. If the normalized title is
  the normalized title of a catalog entry, the exact stage answers. Only
  otherwise is the substring and prefix test tried: the first normalized
  title of the catalog, in catalog order, that passes it decides. Only if no
  title passes it is \<open>get_close_matches\<close> asked, for one match at cutoff
  0.6. At each stage the entry that answers is the last entry of the catalog
  that carries the title found; when no two entries share a normalized
  title that is the entry with the exact title, and in the second stage the
  first candidate in catalog order. In a catalog that lists
  \<open>Dune Messiah\<close> before \<open>Dune\<close>, the query \<open>dune\<close> gets the summary of
  \<open>Dune\<close>, although \<open>Dune Messiah\<close> is the first candidate.
\<close>

theorem summary_precedence:
  assumes lb: "load_books E = Inr books"
      and inv: "cache s = None \<or> cache s = Some (books, title_index (lib E) books [])"
      and t: "strip (lib E) title \<noteq> []"
  shows "(norm (lib E) title \<in> set (normalized_titles (lib E) books) \<longrightarrow>
            fst (get_summary_by_title E title s)
              = Inr (summary_exact (lib E) (last (entries_titled (lib E) (norm (lib E) title) books))))
       \<and> (norm (lib E) title \<notin> set (normalized_titles (lib E) books) \<longrightarrow>
            (\<forall>k. find (title_matches (norm (lib E) title)) (normalized_titles (lib E) books) = Some k \<longrightarrow>
               fst (get_summary_by_title E title s)
                 = Inr (summary_best (lib E) (last (entries_titled (lib E) k books)))))
       \<and> (norm (lib E) title \<notin> set (normalized_titles (lib E) books) \<longrightarrow>
            find (title_matches (norm (lib E) title)) (normalized_titles (lib E) books) = None \<longrightarrow>
            fst (get_summary_by_title E title s) =
              (case get_close_matches (lib E) title
                      (map (\<lambda>b. text_or_empty (b_title b)) books) 1 (6 / 10) of
                 [] \<Rightarrow> Inr (not_found title)
               | ct # rest \<Rightarrow>
                   (case entries_titled (lib E) (norm (lib E) ct) books of
                      [] \<Rightarrow> Inl (KeyError (str_repr (lib E) (norm (lib E) ct)))
                    | e # es \<Rightarrow> Inr (summary_close (lib E) ct (last (e # es))))))
       \<and> (distinct (normalized_titles (lib E) books) \<longrightarrow>
            (\<forall>b \<in> set books.
               has_title (lib E) b \<longrightarrow> normalized_title (lib E) b = norm (lib E) title \<longrightarrow>
               fst (get_summary_by_title E title s) = Inr (summary_exact (lib E) b)))
       \<and> (distinct (normalized_titles (lib E) books) \<longrightarrow>
            norm (lib E) title \<notin> set (normalized_titles (lib E) books) \<longrightarrow>
            (\<forall>b. find (is_candidate (lib E) (norm (lib E) title)) books = Some b \<longrightarrow>
               fst (get_summary_by_title E title s) = Inr (summary_best (lib E) b)))
       \<and> fst (get_summary_by_title demo_env (asc ''dune'') start) = Inr (asc ''A desert planet.'')
       \<and> find (is_candidate ascii_py (asc ''dune'')) [dune_messiah, dune, hobbit] = Some dune_messiah"
proof -
  let ?L = "lib E"
  let ?idx = "title_index ?L books []"
  let ?key = "norm ?L title"
  let ?T = "normalized_titles ?L books"
  note st = get_summary_stages [OF lb inv t]
  have exact: "fst (get_summary_by_title E title s)
              = Inr (summary_exact ?L (last (entries_titled ?L ?key books)))"
    if "?key \<in> set ?T"
    using st index_entry [OF that] by simp
  have sub: "fst (get_summary_by_title E title s)
                 = Inr (summary_best ?L (last (entries_titled ?L k books)))"
    if no: "?key \<notin> set ?T" and f: "find (title_matches ?key) ?T = Some k" for k
  proof -
    from no title_index_keys [of ?L books ?key] have n: "map_of ?idx ?key = None" by simp
    from f find_title_index [of "title_matches ?key" ?L books "[]"]
    have "find (title_matches ?key) (map fst ?idx) = Some k" by simp
    from first_candidate [OF this] obtain b rest where
      b: "map_of ?idx k = Some b" and c: "candidates_for ?key ?idx = b # rest"
      by (auto simp: candidates_for_matches)
    from index_entry [OF find_member [OF f]] b
    have "b = last (entries_titled ?L k books)" by simp
    with st n c show ?thesis by simp
  qed
  have fuzzy: "fst (get_summary_by_title E title s) =
              (case get_close_matches ?L title
                      (map (\<lambda>b. text_or_empty (b_title b)) books) 1 (6 / 10) of
                 [] \<Rightarrow> Inr (not_found title)
               | ct # rest \<Rightarrow>
                   (case entries_titled ?L (norm ?L ct) books of
                      [] \<Rightarrow> Inl (KeyError (str_repr ?L (norm ?L ct)))
                    | e # es \<Rightarrow> Inr (summary_close ?L ct (last (e # es)))))"
    if no: "?key \<notin> set ?T" and f: "find (title_matches ?key) ?T = None"
  proof -
    from no title_index_keys [of ?L books ?key] have n: "map_of ?idx ?key = None" by simp
    from f find_title_index [of "title_matches ?key" ?L books "[]"]
    have "find (title_matches ?key) (map fst ?idx) = None" by simp
    from no_candidate [OF this] have "candidates_for ?key ?idx = []"
      by (simp add: candidates_for_matches)
    with st n show ?thesis
      by (simp add: index_last [of ?L books "[]"] split: list.splits)
  qed
  have exact1: "fst (get_summary_by_title E title s) = Inr (summary_exact ?L b)"
    if d: "distinct ?T" and b: "b \<in> set books" "has_title ?L b" "normalized_title ?L b = ?key" for b
  proof -
    from b(1,2) have "normalized_title ?L b \<in> set ?T"
      by (simp add: normalized_titles_alt)
    with b(3) have "?key \<in> set ?T" by simp
    from exact [OF this] entries_titled_only [OF d b(1) b(2)] b(3) show ?thesis by simp
  qed
  have sub1: "fst (get_summary_by_title E title s) = Inr (summary_best ?L b)"
    if d: "distinct ?T" and no: "?key \<notin> set ?T"
      and f: "find (is_candidate ?L ?key) books = Some b" for b
  proof -
    from f have k: "find (title_matches ?key) ?T = Some (normalized_title ?L b)"
      by (simp add: first_candidate_title)
    from find_member [OF f] find_holds [OF f] have "b \<in> set books" "has_title ?L b"
      by (simp_all add: is_candidate_def)
    from sub [OF no k] entries_titled_only [OF d this] show ?thesis by simp
  qed
  have d1: "fst (get_summary_by_title demo_env (asc ''dune'') start) = Inr (asc ''A desert planet.'')"
    by code_simp
  have d2: "find (is_candidate ascii_py (asc ''dune'')) [dune_messiah, dune, hobbit] = Some dune_messiah"
    by code_simp
  from exact sub fuzzy exact1 sub1 d1 d2 show ?thesis by blast
qed

theorem summary_precedence_witness:
  "load_books demo_env = Inr [dune_messiah, dune, hobbit]
   \<and> cache start = None
   \<and> distinct (normalized_titles (lib demo_env) [dune_messiah, dune, hobbit])
   \<and> strip (lib demo_env) (asc ''dune'') \<noteq> []
   \<and> norm (lib demo_env) (asc ''dune'')
        \<in> set (normalized_titles (lib demo_env) [dune_messiah, dune, hobbit])
   \<and> last (entries_titled (lib demo_env) (norm (lib demo_env) (asc ''dune''))
              [dune_messiah, dune, hobbit]) = dune
   \<and> fst (get_summary_by_title demo_env (asc ''dune'') start) = Inr (summary_exact (lib demo_env) dune)
   \<and> strip (lib demo_env) (asc ''Messiah'') \<noteq> []
   \<and> norm (lib demo_env) (asc ''Messiah'')
        \<notin> set (normalized_titles (lib demo_env) [dune_messiah, dune, hobbit])
   \<and> find (title_matches (norm (lib demo_env) (asc ''Messiah'')))
        (normalized_titles (lib demo_env) [dune_messiah, dune, hobbit]) = Some (asc ''dune messiah'')
   \<and> find (is_candidate (lib demo_env) (norm (lib demo_env) (asc ''Messiah'')))
        [dune_messiah, dune, hobbit] = Some dune_messiah
   \<and> fst (get_summary_by_title demo_env (asc ''Messiah'') start)
        = Inr (summary_best (lib demo_env) dune_messiah)
   \<and> strip (lib demo_env) (asc ''The Hobit'') \<noteq> []
   \<and> norm (lib demo_env) (asc ''The Hobit'')
        \<notin> set (normalized_titles (lib demo_env) [dune_messiah, dune, hobbit])
   \<and> find (title_matches (norm (lib demo_env) (asc ''The Hobit'')))
        (normalized_titles (lib demo_env) [dune_messiah, dune, hobbit]) = None
   \<and> get_close_matches (lib demo_env) (asc ''The Hobit'')
        (map (\<lambda>b. text_or_empty (b_title b)) [dune_messiah, dune, hobbit]) 1 (6 / 10)
        = [asc ''The Hobbit'']
   \<and> fst (get_summary_by_title demo_env (asc ''The Hobit'') start) = Inr (asc ''Bilbo leaves home.'')
   \<and> load_books twice_listed = Inr [messiah_first, hobbit, messiah_second]
   \<and> norm (lib twice_listed) (asc ''messiah'')
        \<notin> set (normalized_titles (lib twice_listed) [messiah_first, hobbit, messiah_second])
   \<and> find (title_matches (norm (lib twice_listed) (asc ''messiah'')))
        (normalized_titles (lib twice_listed) [messiah_first, hobbit, messiah_second])
        = Some (asc ''dune messiah'')
   \<and> last (entries_titled (lib twice_listed) (asc ''dune messiah'')
              [messiah_first, hobbit, messiah_second]) = messiah_second
   \<and> fst (get_summary_by_title twice_listed (asc ''messiah'') start)
        = Inr (summary_best (lib twice_listed) messiah_second)"
proof -
  have lb: "load_books demo_env = Inr [dune_messiah, dune, hobbit]"
    by (simp add: load_books_def demo_env_def)
  have inv: "cache start = None" by (simp add: start_def)
  have inv': "cache start = None
      \<or> cache start = Some ([dune_messiah, dune, hobbit],
                             title_index (lib demo_env) [dune_messiah, dune, hobbit] [])"
    using inv by simp
  have dt: "distinct (normalized_titles (lib demo_env) [dune_messiah, dune, hobbit])" by code_simp
  have t1: "strip (lib demo_env) (asc ''dune'') \<noteq> []" by code_simp
  have h1: "norm (lib demo_env) (asc ''dune'')
        \<in> set (normalized_titles (lib demo_env) [dune_messiah, dune, hobbit])" by code_simp
  have l1: "last (entries_titled (lib demo_env) (norm (lib demo_env) (asc ''dune''))
              [dune_messiah, dune, hobbit]) = dune" by code_simp
  note T1 = summary_precedence [OF lb inv' t1]
  from T1 [THEN conjunct1, rule_format, OF h1] l1
  have r1: "fst (get_summary_by_title demo_env (asc ''dune'') start)
      = Inr (summary_exact (lib demo_env) dune)" by simp
  have t2: "strip (lib demo_env) (asc ''Messiah'') \<noteq> []" by code_simp
  have h2: "norm (lib demo_env) (asc ''Messiah'')
        \<notin> set (normalized_titles (lib demo_env) [dune_messiah, dune, hobbit])" by code_simp
  have f2: "find (title_matches (norm (lib demo_env) (asc ''Messiah'')))
        (normalized_titles (lib demo_env) [dune_messiah, dune, hobbit]) = Some (asc ''dune messiah'')"
    by code_simp
  have c2: "find (is_candidate (lib demo_env) (norm (lib demo_env) (asc ''Messiah'')))
        [dune_messiah, dune, hobbit] = Some dune_messiah" by code_simp
  note T2 = summary_precedence [OF lb inv' t2]
  from T2 [THEN conjunct2, THEN conjunct2, THEN conjunct2, THEN conjunct2, THEN conjunct1,
           rule_format, OF dt h2 c2]
  have r2: "fst (get_summary_by_title demo_env (asc ''Messiah'') start)
        = Inr (summary_best (lib demo_env) dune_messiah)" .
  have t3: "strip (lib demo_env) (asc ''The Hobit'') \<noteq> []" by code_simp
  have h3: "norm (lib demo_env) (asc ''The Hobit'')
        \<notin> set (normalized_titles (lib demo_env) [dune_messiah, dune, hobbit])" by code_simp
  have f3: "find (title_matches (norm (lib demo_env) (asc ''The Hobit'')))
        (normalized_titles (lib demo_env) [dune_messiah, dune, hobbit]) = None"
    by code_simp
  have g3: "get_close_matches (lib demo_env) (asc ''The Hobit'')
        (map (\<lambda>b. text_or_empty (b_title b)) [dune_messiah, dune, hobbit]) 1 (6 / 10)
        = [asc ''The Hobbit'']"
    by code_simp
  have r3: "fst (get_summary_by_title demo_env (asc ''The Hobit'') start) = Inr (asc ''Bilbo leaves home.'')"
    by code_simp
  have lb4: "load_books twice_listed = Inr [messiah_first, hobbit, messiah_second]"
    by (simp add: load_books_def twice_listed_def)
  have inv4: "cache start = None
      \<or> cache start = Some ([messiah_first, hobbit, messiah_second],
                             title_index (lib twice_listed) [messiah_first, hobbit, messiah_second] [])"
    using inv by simp
  have t4: "strip (lib twice_listed) (asc ''messiah'') \<noteq> []" by code_simp
  have h4: "norm (lib twice_listed) (asc ''messiah'')
        \<notin> set (normalized_titles (lib twice_listed) [messiah_first, hobbit, messiah_second])"
    by code_simp
  have f4: "find (title_matches (norm (lib twice_listed) (asc ''messiah'')))
        (normalized_titles (lib twice_listed) [messiah_first, hobbit, messiah_second])
        = Some (asc ''dune messiah'')" by code_simp
  have l4: "last (entries_titled (lib twice_listed) (asc ''dune messiah'')
              [messiah_first, hobbit, messiah_second]) = messiah_second" by code_simp
  note T4 = summary_precedence [OF lb4 inv4 t4]
  from T4 [THEN conjunct2, THEN conjunct1, rule_format, OF h4 f4] l4
  have r4: "fst (get_summary_by_title twice_listed (asc ''messiah'') start)
        = Inr (summary_best (lib twice_listed) messiah_second)" by simp
  from lb inv dt t1 h1 l1 r1 t2 h2 f2 c2 r2 t3 h3 f3 g3 r3 lb4 h4 f4 l4 r4
  show ?thesis by (intro conjI)
qed

text \<open>
  C6 as stated fails on which candidate is taken. In a catalog that lists
  \<open>Dune Messiah\<close> with the summary \<open>first\<close>, then \<open>The Hobbit\<close>, then
  \<open>DUNE MESSIAH\<close> with the summary \<open>second\<close>, the query \<open>messiah\<close> has no
  exact match; the first candidate in catalog order is the first entry, and
  the answer is the summary of the third.
\<close>

theorem summary_first_candidate_counterexample:
  "load_books twice_listed = Inr [messiah_first, hobbit, messiah_second]
   \<and> norm ascii_py (asc ''messiah'')
        \<notin> set (normalized_titles ascii_py [messiah_first, hobbit, messiah_second])
   \<and> find (is_candidate ascii_py (norm ascii_py (asc ''messiah'')))
        [messiah_first, hobbit, messiah_second] = Some messiah_first
   \<and> summary_best ascii_py messiah_first = asc ''first''
   \<and> fst (get_summary_by_title twice_listed (asc ''messiah'') start) = Inr (asc ''second'')
   \<and> asc ''first'' \<noteq> asc ''second''"
proof -
  have a: "load_books twice_listed = Inr [messiah_first, hobbit, messiah_second]"
    by (simp add: load_books_def twice_listed_def)
  have b: "norm ascii_py (asc ''messiah'')
        \<notin> set (normalized_titles ascii_py [messiah_first, hobbit, messiah_second])" by code_simp
  have c: "find (is_candidate ascii_py (norm ascii_py (asc ''messiah'')))
        [messiah_first, hobbit, messiah_second] = Some messiah_first" by code_simp
  have d: "summary_best ascii_py messiah_first = asc ''first''" by code_simp
  have e: "fst (get_summary_by_title twice_listed (asc ''messiah'') start) = Inr (asc ''second'')"
    by code_simp
  have f: "asc ''first'' \<noteq> asc ''second''" by code_simp
  from a b c d e f show ?thesis by (intro conjI)
qed

end
